theory Spec2Isabelle
  imports Main "HOL-Library.Char_ord" "HOL-Library.List_Lexorder" "HOL-Library.Multiset"
begin

section \<open>Python values\<close>

text \<open>
  The configuration tree is a parsed YAML document and the authentication state a JSON
  document: None, booleans, integers, strings, lists and mappings (insertion ordered,
  as Python dicts are). \<open>VObj\<close> stands for an object of a consumed library (class name and
  constructor keywords), which the script builds but never reads. Floating point numbers
  are not modelled. A well-formed mapping has pairwise different keys.

  A string is a list of characters, and a character stands for the code point of its
  number: the strings of the model are those over the code points 0 to 255. Strings
  with other code points have no counterpart here.

  Values are trees: a list or mapping sits at one place of the configuration tree, as
  in a YAML document written without aliases (which is how the chart renders its
  values). Two places never hold one and the same list or mapping object, so a change
  that the script makes to a list or mapping in place is a change of the value at the
  place it was taken from.
\<close>

datatype pyval =
    VNone
  | VBool bool
  | VInt int
  | VStr string
  | VList "pyval list"
  | VDict "(pyval \<times> pyval) list"
  | VObj string "(string \<times> pyval) list"

datatype error =
    ValueError string
  | TypeError
  | KeyError
  | AttributeError
  | LibraryError string

subsection \<open>Truthiness, \<open>str\<close> and \<open>repr\<close>\<close>

fun truthy :: "pyval \<Rightarrow> bool" where
  "truthy VNone = False"
| "truthy (VBool b) = b"
| "truthy (VInt i) = (i \<noteq> 0)"
| "truthy (VStr s) = (s \<noteq> [])"
| "truthy (VList xs) = (xs \<noteq> [])"
| "truthy (VDict d) = (d \<noteq> [])"
| "truthy (VObj c kw) = True"

text \<open>\<open>x == True\<close> in Python holds for \<open>True\<close> and for the integer 1.\<close>

definition eq_True :: "pyval \<Rightarrow> bool" where
  "eq_True v = (v = VBool True \<or> v = VInt 1)"

definition digit_char :: "nat \<Rightarrow> char" where
  "digit_char n = ''0123456789abcdef'' ! n"

function dec_nat :: "nat \<Rightarrow> string" where
  "dec_nat n = (if n < 10 then [digit_char n] else dec_nat (n div 10) @ [digit_char (n mod 10)])"
  by pat_completeness auto
termination
  by (relation "measure (\<lambda>n. n)") auto

definition dec_int :: "int \<Rightarrow> string" where
  "dec_int i = (if i < 0 then CHR ''-'' # dec_nat (nat (- i)) else dec_nat (nat i))"

fun join :: "string \<Rightarrow> string list \<Rightarrow> string" where
  "join sep [] = []"
| "join sep [x] = x"
| "join sep (x # y # ys) = x @ sep @ join sep (y # ys)"

text \<open>
  \<open>repr\<close> of a string: single quotes unless the string has a single quote and no
  double quote; backslash and the chosen quote are escaped with a backslash; tab,
  newline and carriage return are written as a backslash and the letter t, n or r; and
  every other character that is not printable is written as a backslash, the letter x
  and two lower-case hexadecimal digits. Of the code points 0 to 255 the ones that are
  not printable are the control characters 0 to 31 and 127 to 159, the no-break space
  160 and the soft hyphen 173.
\<close>

definition printable :: "char \<Rightarrow> bool" where
  "printable ch =
     (let n = (of_char ch :: nat) in \<not> (n < 32 \<or> (127 \<le> n \<and> n \<le> 160) \<or> n = 173))"

definition repr_char :: "char \<Rightarrow> char \<Rightarrow> string" where
  "repr_char q ch =
     (if ch = q \<or> ch = CHR 0x5C then [CHR 0x5C, ch]
      else if ch = CHR 0x09 then [CHR 0x5C, CHR ''t'']
      else if ch = CHR 0x0A then [CHR 0x5C, CHR ''n'']
      else if ch = CHR 0x0D then [CHR 0x5C, CHR ''r'']
      else if \<not> printable ch
        then [CHR 0x5C, CHR ''x'', digit_char ((of_char ch :: nat) div 16),
              digit_char ((of_char ch :: nat) mod 16)]
      else [ch])"

definition repr_str :: "string \<Rightarrow> string" where
  "repr_str s =
     (let q = (if CHR 0x27 \<in> set s \<and> CHR 0x22 \<notin> set s then CHR 0x22 else CHR 0x27)
      in [q] @ concat (map (repr_char q) s) @ [q])"

fun py_repr :: "pyval \<Rightarrow> string" where
  "py_repr VNone = ''None''"
| "py_repr (VBool b) = (if b then ''True'' else ''False'')"
| "py_repr (VInt i) = dec_int i"
| "py_repr (VStr s) = repr_str s"
| "py_repr (VList xs) = ''['' @ join '', '' (map py_repr xs) @ '']''"
| "py_repr (VDict d) =
     ''{'' @ join '', '' (map (\<lambda>kv. py_repr (fst kv) @ '': '' @ py_repr (snd kv)) d) @ ''}''"
| "py_repr (VObj c kw) = ''<'' @ c @ '' object>''"

text \<open>\<open>str(v)\<close>, which is also what an f-string and \<open>str.format\<close> insert for \<open>{}\<close>.\<close>

definition py_str :: "pyval \<Rightarrow> string" where
  "py_str v = (case v of VStr s \<Rightarrow> s | _ \<Rightarrow> py_repr v)"

subsection \<open>Key-name derivation\<close>

text \<open>
  \<open>re.sub(r"_([a-z])", lambda m: m.group(1).upper(), s)\<close>: scanning from the left, an
  underscore followed by an ASCII lower-case letter is replaced by the upper-case
  letter, and the scan goes on after the letter; every other character is copied.
\<close>

definition is_lower :: "char \<Rightarrow> bool" where
  "is_lower ch = (ch \<in> set ''abcdefghijklmnopqrstuvwxyz'')"

definition upper :: "char \<Rightarrow> char" where
  "upper ch =
     (case map_of (zip ''abcdefghijklmnopqrstuvwxyz'' ''ABCDEFGHIJKLMNOPQRSTUVWXYZ'') ch of
        Some u \<Rightarrow> u
      | None \<Rightarrow> ch)"

fun camelCaseify :: "string \<Rightarrow> string" where
  "camelCaseify (a # b # s) =
     (if a = CHR ''_'' \<and> is_lower b then upper b # camelCaseify s
      else a # camelCaseify (b # s))"
| "camelCaseify s = s"

definition capitalize :: "string \<Rightarrow> string" where
  "capitalize w = (case w of [] \<Rightarrow> [] | a # s \<Rightarrow> upper a # s)"

subsection \<open>Strings, containers\<close>

text \<open>\<open>s.split(sep)\<close> for a one-character separator: never an empty list.\<close>

fun split_on :: "char \<Rightarrow> string \<Rightarrow> string list" where
  "split_on sep [] = [[]]"
| "split_on sep (x # xs) =
     (if x = sep then [] # split_on sep xs
      else (case split_on sep xs of w # ws \<Rightarrow> (x # w) # ws | [] \<Rightarrow> [[x]]))"

text \<open>\<open>s.rsplit(sep, 1)[-1]\<close> and \<open>os.path.basename\<close>: what follows the last separator.\<close>

definition after_last :: "char \<Rightarrow> string \<Rightarrow> string" where
  "after_last sep s = last (split_on sep s)"

definition replace_char :: "char \<Rightarrow> char \<Rightarrow> string \<Rightarrow> string" where
  "replace_char a b s = map (\<lambda>ch. if ch = a then b else ch) s"

fun is_infix :: "string \<Rightarrow> string \<Rightarrow> bool" where
  "is_infix p [] = (p = [])"
| "is_infix p (x # xs) = (take (length p) (x # xs) = p \<or> is_infix p xs)"

text \<open>\<open>k in v\<close> for a string \<open>k\<close>.\<close>

fun py_contains :: "string \<Rightarrow> pyval \<Rightarrow> error + bool" where
  "py_contains k (VDict d) = Inr (VStr k \<in> fst ` set d)"
| "py_contains k (VList xs) = Inr (VStr k \<in> set xs)"
| "py_contains k (VStr s) = Inr (is_infix k s)"
| "py_contains k v = Inl TypeError"

text \<open>\<open>v[k]\<close> for a string \<open>k\<close>: only a mapping can be indexed by a string.\<close>

fun py_getitem :: "pyval \<Rightarrow> string \<Rightarrow> error + pyval" where
  "py_getitem (VDict d) k = (case map_of d (VStr k) of None \<Rightarrow> Inl KeyError | Some v \<Rightarrow> Inr v)"
| "py_getitem v k = Inl TypeError"

text \<open>\<open>v.get(k)\<close> and \<open>v.get(k, dflt)\<close>: a method of mappings only.\<close>

fun py_get :: "pyval \<Rightarrow> string \<Rightarrow> pyval \<Rightarrow> error + pyval" where
  "py_get (VDict d) k dflt = (case map_of d (VStr k) of None \<Rightarrow> Inr dflt | Some v \<Rightarrow> Inr v)"
| "py_get v k dflt = Inl AttributeError"

text \<open>\<open>v.pop(k, None)\<close>: a list's \<open>pop\<close> takes no default, other values have no \<open>pop\<close>.\<close>

fun py_pop :: "string \<Rightarrow> pyval \<Rightarrow> error + pyval" where
  "py_pop k (VDict d) = Inr (VDict (filter (\<lambda>p. fst p \<noteq> VStr k) d))"
| "py_pop k (VList xs) = Inl TypeError"
| "py_pop k v = Inl AttributeError"

fun py_items :: "pyval \<Rightarrow> error + (pyval \<times> pyval) list" where
  "py_items (VDict d) = Inr d"
| "py_items v = Inl AttributeError"

text \<open>Iterating a value, as \<open>list.extend\<close> does.\<close>

fun py_iter :: "pyval \<Rightarrow> error + pyval list" where
  "py_iter (VList xs) = Inr xs"
| "py_iter (VDict d) = Inr (map fst d)"
| "py_iter (VStr s) = Inr (map (\<lambda>ch. VStr [ch]) s)"
| "py_iter v = Inl TypeError"

text \<open>\<open>a + b\<close>: lists and strings are concatenated, integers and booleans added.\<close>

fun as_int :: "pyval \<Rightarrow> int option" where
  "as_int (VInt i) = Some i"
| "as_int (VBool b) = Some (if b then 1 else 0)"
| "as_int v = None"

fun py_add :: "pyval \<Rightarrow> pyval \<Rightarrow> error + pyval" where
  "py_add (VList xs) (VList ys) = Inr (VList (xs @ ys))"
| "py_add (VStr s) (VStr t) = Inr (VStr (s @ t))"
| "py_add a b =
     (case (as_int a, as_int b) of (Some i, Some j) \<Rightarrow> Inr (VInt (i + j)) | _ \<Rightarrow> Inl TypeError)"

text \<open>
  Mapping operations on the insertion-ordered representation: \<open>d[k] = v\<close> keeps the place
  of a key that is there and appends a new one; \<open>d.pop(k, None)\<close>; \<open>d.setdefault(k, v)\<close>;
  \<open>d.update(other)\<close> for a mapping \<open>other\<close>.
\<close>

fun dict_set :: "pyval \<Rightarrow> pyval \<Rightarrow> (pyval \<times> pyval) list \<Rightarrow> (pyval \<times> pyval) list" where
  "dict_set k v [] = [(k, v)]"
| "dict_set k v (p # ps) = (if fst p = k then (k, v) # ps else p # dict_set k v ps)"

definition dict_pop :: "pyval \<Rightarrow> (pyval \<times> pyval) list \<Rightarrow> (pyval \<times> pyval) list" where
  "dict_pop k d = filter (\<lambda>p. fst p \<noteq> k) d"

definition dict_setdefault ::
  "pyval \<Rightarrow> pyval \<Rightarrow> (pyval \<times> pyval) list \<Rightarrow> (pyval \<times> pyval) list" where
  "dict_setdefault k v d = (if k \<in> fst ` set d then d else d @ [(k, v)])"

fun hashable :: "pyval \<Rightarrow> bool" where
  "hashable (VList xs) = False"
| "hashable (VDict d) = False"
| "hashable v = True"

text \<open>Mapping a function that may raise over a list, left to right: the first error wins.\<close>

fun mapE :: "('a \<Rightarrow> error + 'b) \<Rightarrow> 'a list \<Rightarrow> error + 'b list" where
  "mapE f [] = Inr []"
| "mapE f (x # xs) =
     (case f x of
        Inl e \<Rightarrow> Inl e
      | Inr y \<Rightarrow> (case mapE f xs of Inl e \<Rightarrow> Inl e | Inr ys \<Rightarrow> Inr (y # ys)))"

text \<open>
  \<open>d.update(other)\<close> with something that is not a mapping goes through \<open>other\<close> element
  by element: element number \<open>i\<close> is made a sequence (a TypeError if it cannot be
  iterated), has to have length two (a ValueError that gives \<open>i\<close> and the length), and
  its first item is inserted as a key (a TypeError if it is not hashable). The pairs
  before the failing element have been inserted by then.
\<close>

definition pair_of :: "nat \<Rightarrow> pyval \<Rightarrow> error + (pyval \<times> pyval)" where
  "pair_of i v =
     (case py_iter v of
        Inl e \<Rightarrow> Inl TypeError
      | Inr [k, x] \<Rightarrow> (if hashable k then Inr (k, x) else Inl TypeError)
      | Inr xs \<Rightarrow> Inl (ValueError (''dictionary update sequence element #'' @ dec_nat i
                                   @ '' has length '' @ dec_nat (length xs)
                                   @ ''; 2 is required'')))"

fun pairs_from :: "nat \<Rightarrow> pyval list \<Rightarrow> (pyval \<times> pyval) list \<times> error option" where
  "pairs_from i [] = ([], None)"
| "pairs_from i (x # xs) =
     (case pair_of i x of
        Inl e \<Rightarrow> ([], Some e)
      | Inr p \<Rightarrow> (case pairs_from (Suc i) xs of (ps, r) \<Rightarrow> (p # ps, r)))"

text \<open>
  The pairs that \<open>d.update(other)\<close> inserts, in order, and the error it ends with if it
  raises: a mapping gives its items; anything else is iterated.
\<close>

fun update_pairs :: "pyval \<Rightarrow> (pyval \<times> pyval) list \<times> error option" where
  "update_pairs (VDict d) = (d, None)"
| "update_pairs v = (case py_iter v of Inl e \<Rightarrow> ([], Some TypeError) | Inr xs \<Rightarrow> pairs_from 0 xs)"

text \<open>
  The elements that \<open>s.update(other)\<close> adds to a set, in order, and the error it ends
  with if it raises: \<open>other\<close> is iterated, and an element that is not hashable is a
  TypeError.
\<close>

fun hashable_prefix :: "pyval list \<Rightarrow> pyval list \<times> error option" where
  "hashable_prefix [] = ([], None)"
| "hashable_prefix (x # xs) =
     (if hashable x then (case hashable_prefix xs of (ys, r) \<Rightarrow> (x # ys, r))
      else ([], Some TypeError))"

definition update_elements :: "pyval \<Rightarrow> pyval list \<times> error option" where
  "update_elements v = (case py_iter v of Inl e \<Rightarrow> ([], Some TypeError) | Inr xs \<Rightarrow> hashable_prefix xs)"

text \<open>
  \<open>sorted(d.items())\<close>: the items are compared as tuples, so by key where the keys
  differ; strings compare by code point, integers and booleans by value, and comparing
  a string with a number or None raises.
\<close>

fun str_key :: "pyval \<Rightarrow> string option" where
  "str_key (VStr s) = Some s"
| "str_key v = None"

definition sorted_items :: "(pyval \<times> pyval) list \<Rightarrow> error + (pyval \<times> pyval) list" where
  "sorted_items d =
     (if length d \<le> 1 then Inr d
      else if \<forall>p \<in> set d. str_key (fst p) \<noteq> None
        then Inr (sort_key (\<lambda>p. the (str_key (fst p))) d)
      else if \<forall>p \<in> set d. as_int (fst p) \<noteq> None
        then Inr (sort_key (\<lambda>p. the (as_int (fst p))) d)
      else Inl TypeError)"

section \<open>The helper module\<close>

text \<open>
  Modelled from the spec: \<open>z2jh.get_config\<close>, whose module is not among the
  sources. The configuration tree is addressed by a dotted path; a path that does not
  resolve to an entry (a segment is missing, or a parent is not a mapping) gives the
  default, and an entry that is there gives its value, None included.
\<close>

fun resolve :: "pyval \<Rightarrow> string list \<Rightarrow> pyval option" where
  "resolve v [] = Some v"
| "resolve (VDict d) (k # ks) =
     (case map_of d (VStr k) of None \<Rightarrow> None | Some v \<Rightarrow> resolve v ks)"
| "resolve v (k # ks) = None"

definition find_config :: "pyval \<Rightarrow> string \<Rightarrow> pyval option" where
  "find_config cfg key = resolve cfg (split_on CHR ''.'' key)"

definition get_config :: "pyval \<Rightarrow> string \<Rightarrow> pyval \<Rightarrow> pyval" where
  "get_config cfg key dflt = (case find_config cfg key of None \<Rightarrow> dflt | Some v \<Rightarrow> v)"

section \<open>The settings object and the statements of the script\<close>

text \<open>
  A value held by the settings object \<open>c\<close>: a plain value; the lazy container value
  that the configuration library creates when a container method is called on an
  attribute that is not set (the items to append to the hosting service's default);
  a byte string; a reference to a function.
\<close>

datatype cval = Val pyval | Lazy "pyval list" | Bytes "nat list" | Ref string

text \<open>
  The settings object maps a category name to the attributes set on it. A category
  that was never touched has no attribute. A name at the top of the settings object
  that is not a category name (see \<open>is_section_key\<close> below) holds, once it is asked
  for, a lazy value that collects what \<open>update\<close> is given: a mapping if the first
  \<open>update\<close> was given a mapping, a set otherwise.
\<close>

type_synonym settings = "string \<Rightarrow> pyval \<rightharpoonup> cval"

datatype lazy_update = UDict "(pyval \<times> pyval) list" | USet "pyval set"

text \<open>
  The state of a run: the settings object (categories and top-level lazy values), the
  process environment, the lines printed so far, and the configuration tree that
  \<open>get_config\<close> reads. Where the script changes a mapping or a list of the tree in
  place (the mappings of \<open>hub.services\<close>, \<open>hub.loadRoles\<close> and \<open>hub.config\<close>, a list
  handed to the settings object and appended to later), the change is modelled where
  the script uses it, in the settings object: the script does not read these places of
  the tree again.
\<close>

record state =
  conf :: settings
  lazy_values :: "string \<rightharpoonup> lazy_update"
  environ :: "string \<rightharpoonup> string"
  trace :: "string list"
  tree :: pyval

text \<open>
  What the script takes from outside: the helper functions \<open>get_name\<close> and
  \<open>get_name_env\<close> and the mounted secrets of the helper module, library functions
  (\<open>url_path_join\<close>, \<open>int\<close>, \<open>bytes.fromhex\<close>), the file system, and what executing a
  configuration fragment (file name, source text) does. A fragment runs in the
  namespace of the script: it may change the settings object, the process environment
  and the configuration tree, print, and raise; so it takes a state to the state it
  leaves and the error it raised, if any. That a fragment binds one of the script's
  own names anew is not modelled.
\<close>

record world =
  get_name :: "string \<Rightarrow> error + string"
  get_name_env :: "string \<Rightarrow> string \<Rightarrow> error + string"
  secrets :: "string \<rightharpoonup> string"
  url_path_join :: "cval \<Rightarrow> string \<Rightarrow> error + string"
  int_of_str :: "string \<Rightarrow> error + int"
  bytes_fromhex :: "pyval \<Rightarrow> error + nat list"
  isdir :: "string \<Rightarrow> bool"
  glob :: "string \<Rightarrow> string list"
  read_file :: "string \<Rightarrow> error + string"
  exec_py :: "string \<Rightarrow> string \<Rightarrow> state \<Rightarrow> state \<times> error option"

text \<open>
  Modelled from the spec: \<open>z2jh.get_secret_value\<close>, the secrets-fetch function
  (values by dotted key). Without a default a missing secret is an error.
\<close>

definition get_secret_value :: "world \<Rightarrow> string \<Rightarrow> error + string" where
  "get_secret_value w key =
     (case secrets w key of
        None \<Rightarrow> Inl (LibraryError (key @ '' not found in either k8s Secret!''))
      | Some v \<Rightarrow> Inr v)"

text \<open>
  A statement runs on a state and gives the state it leaves and, when it raised, the
  error: the state then is the one at the raise.
\<close>

type_synonym stmt = "state \<Rightarrow> state \<times> error option"

definition skip :: stmt where
  "skip s = (s, None)"

definition raise :: "error \<Rightarrow> stmt" where
  "raise e s = (s, Some e)"

fun seq :: "stmt list \<Rightarrow> stmt" where
  "seq [] s = (s, None)"
| "seq (f # fs) s = (case f s of (s', None) \<Rightarrow> seq fs s' | (s', Some e) \<Rightarrow> (s', Some e))"

text \<open>Evaluating an expression that may raise, then going on with its value.\<close>

definition eval :: "error + 'a \<Rightarrow> ('a \<Rightarrow> stmt) \<Rightarrow> stmt" where
  "eval r k s = (case r of Inl e \<Rightarrow> (s, Some e) | Inr v \<Rightarrow> k v s)"

definition getattr :: "state \<Rightarrow> string \<Rightarrow> string \<Rightarrow> cval option" where
  "getattr s sec name = conf s sec (VStr name)"

definition setattr :: "string \<Rightarrow> string \<Rightarrow> cval \<Rightarrow> stmt" where
  "setattr sec name v s = (s\<lparr>conf := (conf s)(sec := (conf s sec)(VStr name \<mapsto> v))\<rparr>, None)"

definition setenv :: "string \<Rightarrow> string \<Rightarrow> stmt" where
  "setenv k v s = (s\<lparr>environ := (environ s)(k \<mapsto> v)\<rparr>, None)"

text \<open>\<open>os.environ[k]\<close>: a missing variable is a KeyError.\<close>

definition getenv :: "string \<Rightarrow> (string \<Rightarrow> stmt) \<Rightarrow> stmt" where
  "getenv k body s = (case environ s k of None \<Rightarrow> (s, Some KeyError) | Some v \<Rightarrow> body v s)"

definition py_print :: "string \<Rightarrow> stmt" where
  "py_print line s = (s\<lparr>trace := trace s @ [line]\<rparr>, None)"

text \<open>
  Modelled from the spec: \<open>z2jh.set_config_if_not_none\<close>. If the source key is
  present and non-null in the configuration tree, the value is assigned to the named
  attribute of the named category; an absent or null key leaves the attribute alone.
\<close>

definition set_config_if_not_none :: "pyval \<Rightarrow> string \<Rightarrow> string \<Rightarrow> string \<Rightarrow> stmt" where
  "set_config_if_not_none cfg sec name key =
     (let data = get_config cfg key VNone
      in if data \<noteq> VNone then setattr sec name (Val data) else skip)"

text \<open>
  \<open>c.Category.name.append(x)\<close> and \<open>.extend(v)\<close>. The attribute is looked up first:
  one that is not set becomes a lazy value, one that holds a list is that list, and
  any other value has no such method. Then the argument of \<open>extend\<close> is iterated. The
  list is changed in place; no other attribute holds the same list object (values are
  trees), so the change shows at this attribute only.
\<close>

definition attr_append :: "string \<Rightarrow> string \<Rightarrow> pyval \<Rightarrow> stmt" where
  "attr_append sec name x s =
     (case getattr s sec name of
        None \<Rightarrow> setattr sec name (Lazy [x]) s
      | Some (Lazy xs) \<Rightarrow> setattr sec name (Lazy (xs @ [x])) s
      | Some (Val (VList xs)) \<Rightarrow> setattr sec name (Val (VList (xs @ [x]))) s
      | Some _ \<Rightarrow> (s, Some AttributeError))"

definition attr_extend :: "string \<Rightarrow> string \<Rightarrow> pyval \<Rightarrow> stmt" where
  "attr_extend sec name v s =
     (case getattr s sec name of
        None \<Rightarrow>
          (case py_iter v of
             Inl e \<Rightarrow> (fst (setattr sec name (Lazy []) s), Some e)
           | Inr ys \<Rightarrow> setattr sec name (Lazy ys) s)
      | Some (Lazy xs) \<Rightarrow>
          (case py_iter v of
             Inl e \<Rightarrow> (s, Some e)
           | Inr ys \<Rightarrow> setattr sec name (Lazy (xs @ ys)) s)
      | Some (Val (VList xs)) \<Rightarrow>
          (case py_iter v of
             Inl e \<Rightarrow> (s, Some e)
           | Inr ys \<Rightarrow> setattr sec name (Val (VList (xs @ ys))) s)
      | Some _ \<Rightarrow> (s, Some AttributeError))"

text \<open>
  The loops over (attribute, key) pairs: a pair without a key takes the camel-case
  form of the attribute name.
\<close>

definition source_key :: "string \<Rightarrow> string option \<Rightarrow> string" where
  "source_key trait cfg_key = (case cfg_key of None \<Rightarrow> camelCaseify trait | Some k \<Rightarrow> k)"

definition set_traits ::
  "pyval \<Rightarrow> string \<Rightarrow> string \<Rightarrow> (string \<times> string option) list \<Rightarrow> stmt" where
  "set_traits cfg sec prefix traits =
     seq (map (\<lambda>(trait, cfg_key).
                 set_config_if_not_none cfg sec trait (prefix @ source_key trait cfg_key))
              traits)"

section \<open>The configuration script\<close>

text \<open>
  Each definition below is a stretch of the script, in the order of the source. The
  script's changes of \<open>sys.path\<close> and of the HTTP client class are outside the settings
  object and are left out.
\<close>

subsection \<open>Proxy and hub defaults\<close>

definition proxy_and_hub_defaults :: "world \<Rightarrow> stmt" where
  "proxy_and_hub_defaults w =
     seq [
       setattr ''JupyterHub'' ''spawner_class'' (Val (VStr ''kubespawner.KubeSpawner'')),
       eval (get_name w ''proxy-api'') (\<lambda>host.
         eval (get_name_env w ''proxy-api'' ''_SERVICE_PORT'') (\<lambda>port.
           setattr ''ConfigurableHTTPProxy'' ''api_url''
             (Val (VStr (''http://'' @ host @ '':'' @ port))))),
       setattr ''ConfigurableHTTPProxy'' ''should_start'' (Val (VBool False)),
       setattr ''JupyterHub'' ''cleanup_servers'' (Val (VBool False)),
       setattr ''JupyterHub'' ''last_activity_interval'' (Val (VInt 60)),
       setattr ''JupyterHub'' ''tornado_settings''
         (Val (VDict [(VStr ''slow_spawn_timeout'', VInt 0)]))
     ]"

subsection \<open>Database connection\<close>

text \<open>\<open>get_secret_value("hub.db.password", None)\<close> is the secret, or None without one.\<close>

definition db_connection :: "world \<Rightarrow> pyval \<Rightarrow> stmt" where
  "db_connection w cfg =
     (let db_type = get_config cfg ''hub.db.type'' VNone
      in seq [
        (if db_type = VStr ''sqlite-pvc''
           then setattr ''JupyterHub'' ''db_url'' (Val (VStr ''sqlite:///jupyterhub.sqlite''))
         else if db_type = VStr ''sqlite-memory''
           then setattr ''JupyterHub'' ''db_url'' (Val (VStr ''sqlite://''))
         else set_config_if_not_none cfg ''JupyterHub'' ''db_url'' ''hub.db.url''),
        (case secrets w ''hub.db.password'' of
           None \<Rightarrow> skip
         | Some db_password \<Rightarrow>
             (if db_type = VStr ''mysql'' then setenv ''MYSQL_PWD'' db_password
              else if db_type = VStr ''postgres'' then setenv ''PGPASSWORD'' db_password
              else py_print (''Warning: hub.db.password is ignored for hub.db.type=''
                             @ py_str db_type)))
      ])"

subsection \<open>Hub settings taken from the configuration tree\<close>

definition hub_traits :: "(string \<times> string option) list" where
  "hub_traits = [
     (''concurrent_spawn_limit'', None),
     (''active_server_limit'', None),
     (''base_url'', None),
     (''allow_named_servers'', None),
     (''named_server_limit_per_user'', None),
     (''authenticate_prometheus'', None),
     (''redirect_to_server'', None),
     (''shutdown_on_logout'', None),
     (''template_paths'', None),
     (''template_vars'', None)
   ]"

definition hub_settings :: "pyval \<Rightarrow> stmt" where
  "hub_settings cfg = set_traits cfg ''JupyterHub'' ''hub.'' hub_traits"

definition hub_urls :: "world \<Rightarrow> stmt" where
  "hub_urls w =
     seq [
       setattr ''JupyterHub'' ''hub_bind_url'' (Val (VStr (''http://:'' @ py_str (VInt 8081)))),
       eval (get_name w ''hub'') (\<lambda>host.
         eval (get_name_env w ''hub'' ''_SERVICE_PORT'') (\<lambda>port.
           setattr ''JupyterHub'' ''hub_connect_url''
             (Val (VStr (''http://'' @ host @ '':'' @ port)))))
     ]"

subsection \<open>Common labels, namespace\<close>

text \<open>
  The mapping is shared by the local name \<open>common_labels\<close> and the attribute, so each
  item assignment shows in the attribute. \<open>chart_version.replace\<close> is a method of
  strings only.
\<close>

definition common_labels :: "pyval \<Rightarrow> stmt" where
  "common_labels cfg =
     (let d1 = dict_set (VStr ''app'')
                 (get_config cfg ''nameOverride'' (get_config cfg ''Chart.Name'' (VStr ''jupyterhub'')))
                 [];
          d2 = dict_set (VStr ''heritage'') (VStr ''jupyterhub'') d1;
          chart_name = get_config cfg ''Chart.Name'' VNone;
          chart_version = get_config cfg ''Chart.Version'' VNone;
          release = get_config cfg ''Release.Name'' VNone
      in seq [
        setattr ''KubeSpawner'' ''common_labels'' (Val (VDict [])),
        setattr ''KubeSpawner'' ''common_labels'' (Val (VDict d1)),
        setattr ''KubeSpawner'' ''common_labels'' (Val (VDict d2)),
        eval (if truthy chart_name \<and> truthy chart_version
              then (case chart_version of
                      VStr v \<Rightarrow>
                        Inr (dict_set (VStr ''chart'')
                               (VStr (py_str chart_name @ ''-'' @ replace_char CHR ''+'' CHR ''_'' v))
                               d2)
                    | _ \<Rightarrow> Inl AttributeError)
              else Inr d2)
          (\<lambda>d3. seq [
             setattr ''KubeSpawner'' ''common_labels'' (Val (VDict d3)),
             (if truthy release
              then setattr ''KubeSpawner'' ''common_labels''
                     (Val (VDict (dict_set (VStr ''release'') release d3)))
              else skip)
           ])
      ])"

definition pod_namespace :: stmt where
  "pod_namespace s =
     setattr ''KubeSpawner'' ''namespace''
       (Val (VStr (case environ s ''POD_NAMESPACE'' of None \<Rightarrow> ''default'' | Some v \<Rightarrow> v))) s"

subsection \<open>Spawner settings taken from the configuration tree\<close>

definition consecutive_failure_limit :: "pyval \<Rightarrow> stmt" where
  "consecutive_failure_limit cfg =
     set_config_if_not_none cfg ''Spawner'' ''consecutive_failure_limit''
       ''hub.consecutiveFailureLimit''"

definition kubespawner_traits :: "(string \<times> string option) list" where
  "kubespawner_traits = [
     (''pod_name_template'', None),
     (''start_timeout'', None),
     (''image_pull_policy'', Some ''image.pullPolicy''),
     (''events_enabled'', Some ''events''),
     (''extra_labels'', None),
     (''extra_annotations'', None),
     (''uid'', None),
     (''fs_gid'', None),
     (''service_account'', Some ''serviceAccountName''),
     (''storage_extra_labels'', Some ''storage.extraLabels''),
     (''node_selector'', None),
     (''node_affinity_required'', Some ''extraNodeAffinity.required''),
     (''node_affinity_preferred'', Some ''extraNodeAffinity.preferred''),
     (''pod_affinity_required'', Some ''extraPodAffinity.required''),
     (''pod_affinity_preferred'', Some ''extraPodAffinity.preferred''),
     (''pod_anti_affinity_required'', Some ''extraPodAntiAffinity.required''),
     (''pod_anti_affinity_preferred'', Some ''extraPodAntiAffinity.preferred''),
     (''lifecycle_hooks'', None),
     (''init_containers'', None),
     (''extra_containers'', None),
     (''mem_limit'', Some ''memory.limit''),
     (''mem_guarantee'', Some ''memory.guarantee''),
     (''cpu_limit'', Some ''cpu.limit''),
     (''cpu_guarantee'', Some ''cpu.guarantee''),
     (''extra_resource_limits'', Some ''extraResource.limits''),
     (''extra_resource_guarantees'', Some ''extraResource.guarantees''),
     (''environment'', Some ''extraEnv''),
     (''profile_list'', None),
     (''extra_pod_config'', None)
   ]"

definition kubespawner_settings :: "pyval \<Rightarrow> stmt" where
  "kubespawner_settings cfg = set_traits cfg ''KubeSpawner'' ''singleuser.'' kubespawner_traits"

definition singleuser_image :: "pyval \<Rightarrow> stmt" where
  "singleuser_image cfg =
     (let image = get_config cfg ''singleuser.image.name'' VNone
      in if truthy image
         then (let tag = get_config cfg ''singleuser.image.tag'' VNone
               in setattr ''KubeSpawner'' ''image''
                    (Val (if truthy tag then VStr (py_str image @ '':'' @ py_str tag) else image)))
         else skip)"

text \<open>The value is assigned as it is, None included.\<close>

definition allow_privilege_escalation :: "pyval \<Rightarrow> stmt" where
  "allow_privilege_escalation cfg =
     setattr ''KubeSpawner'' ''allow_privilege_escalation''
       (Val (get_config cfg ''singleuser.allowPrivilegeEscalation'' VNone))"

text \<open>\<open>if v: xs.extend(v)\<close>\<close>

definition extend_if_set :: "pyval \<Rightarrow> pyval list \<Rightarrow> error + pyval list" where
  "extend_if_set v xs =
     (if truthy v then (case py_iter v of Inl e \<Rightarrow> Inl e | Inr ys \<Rightarrow> Inr (xs @ ys)) else Inr xs)"

definition image_pull_secrets :: "world \<Rightarrow> pyval \<Rightarrow> stmt" where
  "image_pull_secrets w cfg =
     eval (if truthy (get_config cfg ''imagePullSecret.automaticReferenceInjection'' VNone)
              \<and> truthy (get_config cfg ''imagePullSecret.create'' VNone)
           then (case get_name w ''image-pull-secret'' of
                   Inl e \<Rightarrow> Inl e
                 | Inr n \<Rightarrow> Inr [VStr n])
           else Inr [])
       (\<lambda>l1. eval (extend_if_set (get_config cfg ''imagePullSecrets'' VNone) l1)
       (\<lambda>l2. eval (extend_if_set (get_config cfg ''singleuser.image.pullSecrets'' VNone) l2)
       (\<lambda>l3. if l3 \<noteq> []
              then setattr ''KubeSpawner'' ''image_pull_secrets'' (Val (VList l3))
              else skip)))"

subsection \<open>Scheduling\<close>

definition scheduling :: "world \<Rightarrow> pyval \<Rightarrow> stmt" where
  "scheduling w cfg =
     seq [
       (if truthy (get_config cfg ''scheduling.userScheduler.enabled'' VNone)
        then eval (get_name w ''user-scheduler'')
               (\<lambda>n. setattr ''KubeSpawner'' ''scheduler_name'' (Val (VStr n)))
        else skip),
       (if truthy (get_config cfg ''scheduling.podPriority.enabled'' VNone)
        then eval (get_name w ''priority'')
               (\<lambda>n. setattr ''KubeSpawner'' ''priority_class_name'' (Val (VStr n)))
        else skip)
     ]"

definition node_selector :: pyval where
  "node_selector =
     VDict [(VStr ''matchExpressions'',
             VList [VDict [(VStr ''key'', VStr ''hub.jupyter.org/node-purpose''),
                           (VStr ''operator'', VStr ''In''),
                           (VStr ''values'', VList [VStr ''user''])]])]"

definition preferred_term :: pyval where
  "preferred_term = VDict [(VStr ''weight'', VInt 100), (VStr ''preference'', node_selector)]"

definition node_purpose_affinity :: "pyval \<Rightarrow> stmt" where
  "node_purpose_affinity cfg =
     (let match_node_purpose =
            get_config cfg ''scheduling.userPods.nodeAffinity.matchNodePurpose'' VNone
      in if truthy match_node_purpose
         then (if match_node_purpose = VStr ''prefer''
                 then attr_append ''KubeSpawner'' ''node_affinity_preferred'' preferred_term
               else if match_node_purpose = VStr ''require''
                 then attr_append ''KubeSpawner'' ''node_affinity_required'' node_selector
               else if match_node_purpose = VStr ''ignore''
                 then skip
               else raise (ValueError (''Unrecognized value for matchNodePurpose: ''
                                       @ py_str match_node_purpose)))
         else skip)"

definition tolerations :: "pyval \<Rightarrow> stmt" where
  "tolerations cfg =
     eval (py_add (get_config cfg ''scheduling.userPods.tolerations'' (VList []))
                  (get_config cfg ''singleuser.extraTolerations'' (VList [])))
       (\<lambda>t. if truthy t then setattr ''KubeSpawner'' ''tolerations'' (Val t) else skip)"

subsection \<open>Storage\<close>

definition storage :: "pyval \<Rightarrow> stmt" where
  "storage cfg =
     (let storage_type = get_config cfg ''singleuser.storage.type'' VNone
      in if storage_type = VStr ''dynamic'' then
           (let pvc_name_template = get_config cfg ''singleuser.storage.dynamic.pvcNameTemplate'' VNone;
                volume_name_template =
                  get_config cfg ''singleuser.storage.dynamic.volumeNameTemplate'' VNone
            in seq [
              setattr ''KubeSpawner'' ''pvc_name_template'' (Val pvc_name_template),
              setattr ''KubeSpawner'' ''storage_pvc_ensure'' (Val (VBool True)),
              set_config_if_not_none cfg ''KubeSpawner'' ''storage_class''
                ''singleuser.storage.dynamic.storageClass'',
              set_config_if_not_none cfg ''KubeSpawner'' ''storage_access_modes''
                ''singleuser.storage.dynamic.storageAccessModes'',
              set_config_if_not_none cfg ''KubeSpawner'' ''storage_capacity''
                ''singleuser.storage.capacity'',
              setattr ''KubeSpawner'' ''volumes''
                (Val (VList [VDict [
                   (VStr ''name'', volume_name_template),
                   (VStr ''persistentVolumeClaim'',
                    VDict [(VStr ''claimName'', pvc_name_template)])]])),
              setattr ''KubeSpawner'' ''volume_mounts''
                (Val (VList [VDict [
                   (VStr ''mountPath'', get_config cfg ''singleuser.storage.homeMountPath'' VNone),
                   (VStr ''name'', volume_name_template)]]))
            ])
         else if storage_type = VStr ''static'' then
           (let pvc_claim_name = get_config cfg ''singleuser.storage.static.pvcName'' VNone
            in seq [
              setattr ''KubeSpawner'' ''volumes''
                (Val (VList [VDict [
                   (VStr ''name'', VStr ''home''),
                   (VStr ''persistentVolumeClaim'',
                    VDict [(VStr ''claimName'', pvc_claim_name)])]])),
              setattr ''KubeSpawner'' ''volume_mounts''
                (Val (VList [VDict [
                   (VStr ''mountPath'', get_config cfg ''singleuser.storage.homeMountPath'' VNone),
                   (VStr ''name'', VStr ''home''),
                   (VStr ''subPath'', get_config cfg ''singleuser.storage.static.subPath'' VNone)]]))
            ])
         else skip)"

subsection \<open>Extra files, extra volumes\<close>

definition extra_file_item :: "pyval \<times> pyval \<Rightarrow> error + pyval" where
  "extra_file_item f =
     (case f of (file_key, file_details) \<Rightarrow>
        (case py_contains ''mode'' file_details of
           Inl e \<Rightarrow> Inl e
         | Inr has_mode \<Rightarrow>
             (if has_mode
              then (case py_getitem file_details ''mode'' of
                      Inl e \<Rightarrow> Inl e
                    | Inr m \<Rightarrow>
                        Inr (VDict [(VStr ''key'', file_key), (VStr ''path'', file_key),
                                    (VStr ''mode'', m)]))
              else Inr (VDict [(VStr ''key'', file_key), (VStr ''path'', file_key)]))))"

definition extra_file_mount :: "pyval \<times> pyval \<Rightarrow> error + pyval" where
  "extra_file_mount f =
     (case f of (file_key, file_details) \<Rightarrow>
        (case py_getitem file_details ''mountPath'' of
           Inl e \<Rightarrow> Inl e
         | Inr p \<Rightarrow>
             Inr (VDict [(VStr ''mountPath'', p), (VStr ''subPath'', file_key),
                         (VStr ''name'', VStr ''files'')])))"

definition extra_files :: "world \<Rightarrow> pyval \<Rightarrow> stmt" where
  "extra_files w cfg =
     (let extra_files = get_config cfg ''singleuser.extraFiles'' (VDict [])
      in if truthy extra_files
         then eval (py_items extra_files) (\<lambda>files.
              eval (mapE extra_file_item files) (\<lambda>items.
              eval (get_name w ''singleuser'') (\<lambda>secret_name.
                seq [
                  attr_append ''KubeSpawner'' ''volumes''
                    (VDict [(VStr ''name'', VStr ''files''),
                            (VStr ''secret'',
                             VDict [(VStr ''secretName'', VStr secret_name),
                                    (VStr ''items'', VList items)])]),
                  eval (mapE extra_file_mount files) (\<lambda>volume_mounts.
                    attr_extend ''KubeSpawner'' ''volume_mounts'' (VList volume_mounts))
                ])))
         else skip)"

definition extra_volumes :: "pyval \<Rightarrow> stmt" where
  "extra_volumes cfg =
     seq [
       attr_extend ''KubeSpawner'' ''volumes''
         (get_config cfg ''singleuser.storage.extraVolumes'' (VList [])),
       attr_extend ''KubeSpawner'' ''volume_mounts''
         (get_config cfg ''singleuser.storage.extraVolumeMounts'' (VList []))
     ]"

definition lifecycle_hooks :: "pyval \<Rightarrow> stmt" where
  "lifecycle_hooks cfg =
     set_config_if_not_none cfg ''KubeSpawner'' ''lifecycle_hooks'' ''singleuser.lifecycleHooks''"

definition hub_connect :: "world \<Rightarrow> stmt" where
  "hub_connect w =
     seq [
       getenv ''HUB_SERVICE_HOST''
         (\<lambda>host. setattr ''JupyterHub'' ''hub_connect_ip'' (Val (VStr host))),
       getenv ''HUB_SERVICE_PORT''
         (\<lambda>port. eval (int_of_str w port)
                    (\<lambda>i. setattr ''JupyterHub'' ''hub_connect_port'' (Val (VInt i))))
     ]"

subsection \<open>Selecting the authenticator\<close>

definition common_oauth_traits :: "(string \<times> string option) list" where
  "common_oauth_traits = [
     (''client_id'', None),
     (''client_secret'', None),
     (''oauth_callback_url'', Some ''callbackUrl'')
   ]"

text \<open>
  The loops of the cilogon, gitlab, mediawiki and globus branches concatenate the
  prefix and the pair's key as it is: a pair without a key makes that a string plus
  None, which raises.
\<close>

definition set_traits_keyed ::
  "pyval \<Rightarrow> string \<Rightarrow> string \<Rightarrow> (string \<times> string option) list \<Rightarrow> stmt" where
  "set_traits_keyed cfg sec prefix traits =
     seq (map (\<lambda>(trait, cfg_key).
                 (case cfg_key of
                    None \<Rightarrow> raise TypeError
                  | Some k \<Rightarrow> set_config_if_not_none cfg sec trait (prefix @ k)))
              traits)"

text \<open>
  \<open>c[name]\<close> for a name computed at run time. For the configuration library a name is
  a category name when it is not empty, its first character is unchanged by
  \<open>upper()\<close>, and it does not start with an underscore. Of the code points 0 to 255,
  \<open>upper()\<close> changes the letters a to z, the micro sign 181, the sharp s 223 and the
  letters 224 to 255 but the division sign 247. Any other name is a KeyError if it
  starts with an underscore, and holds a lazy value otherwise. A name that is not a
  string cannot be looked at: it is indexed when it is truthy, and asked for
  \<open>startswith\<close> otherwise.
\<close>

definition changed_by_upper :: "char \<Rightarrow> bool" where
  "changed_by_upper ch =
     (let n = (of_char ch :: nat)
      in is_lower ch \<or> n = 181 \<or> n = 223 \<or> (224 \<le> n \<and> n \<noteq> 247))"

definition is_section_key :: "string \<Rightarrow> bool" where
  "is_section_key key =
     (case key of [] \<Rightarrow> False | ch # rest \<Rightarrow> \<not> changed_by_upper ch \<and> ch \<noteq> CHR ''_'')"

datatype top = Section string | LazyValue string

definition top_of :: "pyval \<Rightarrow> error + top" where
  "top_of app =
     (case app of
        VStr name \<Rightarrow>
          (if is_section_key name then Inr (Section name)
           else if take 1 name = ''_'' then Inl KeyError
           else Inr (LazyValue name))
      | _ \<Rightarrow> (if truthy app then Inl TypeError else Inl AttributeError))"

text \<open>
  \<open>c[name].update(other)\<close>. A category is a mapping: the pairs are inserted one by one
  until an error, if any. A lazy value that has collected nothing yet becomes a
  mapping if \<open>other\<close> is a mapping and a set otherwise, and is then updated as a
  mapping or as a set.
\<close>

definition section_update :: "string \<Rightarrow> pyval \<Rightarrow> stmt" where
  "section_update sec other s =
     (case update_pairs other of
        (items, r) \<Rightarrow>
          (s\<lparr>conf := (conf s)(sec := fold (\<lambda>(k, v) m. m(k \<mapsto> Val v)) items (conf s sec))\<rparr>, r))"

definition lazy_update :: "lazy_update \<Rightarrow> pyval \<Rightarrow> lazy_update \<times> error option" where
  "lazy_update u other =
     (case u of
        UDict d \<Rightarrow>
          (case update_pairs other of
             (items, r) \<Rightarrow> (UDict (fold (\<lambda>(k, v) d'. dict_set k v d') items d), r))
      | USet xs \<Rightarrow>
          (case update_elements other of
             (ys, r) \<Rightarrow> (USet (xs \<union> set ys), r)))"

definition lazy_value_update :: "string \<Rightarrow> pyval \<Rightarrow> stmt" where
  "lazy_value_update name other s =
     (let u = (case lazy_values s name of
                 Some u \<Rightarrow> u
               | None \<Rightarrow> (case other of VDict d \<Rightarrow> UDict [] | _ \<Rightarrow> USet {}))
      in case lazy_update u other of
           (u', r) \<Rightarrow> (s\<lparr>lazy_values := (lazy_values s)(name \<mapsto> u')\<rparr>, r))"

definition top_update :: "pyval \<Rightarrow> pyval \<Rightarrow> stmt" where
  "top_update app other =
     eval (top_of app)
       (\<lambda>t. case t of
              Section sec \<Rightarrow> section_update sec other
            | LazyValue name \<Rightarrow> lazy_value_update name other)"

definition auth_types :: "string list" where
  "auth_types = [''google'', ''github'', ''cilogon'', ''gitlab'', ''mediawiki'', ''globus'',
                 ''hmac'', ''dummy'', ''tmp'', ''lti'', ''ldap'', ''custom'']"

definition ldap_traits :: "(string \<times> string) list" where
  "ldap_traits = [
     (''server_port'', ''auth.ldap.server.port''),
     (''use_ssl'', ''auth.ldap.server.ssl''),
     (''allowed_groups'', ''auth.ldap.allowedGroups''),
     (''bind_dn_template'', ''auth.ldap.dn.templates''),
     (''lookup_dn'', ''auth.ldap.dn.lookup''),
     (''lookup_dn_search_filter'', ''auth.ldap.dn.search.filter''),
     (''lookup_dn_search_user'', ''auth.ldap.dn.search.user''),
     (''lookup_dn_search_password'', ''auth.ldap.dn.search.password''),
     (''lookup_dn_user_dn_attribute'', ''auth.ldap.dn.user.dnAttribute''),
     (''escape_userdn'', ''auth.ldap.dn.user.escape''),
     (''valid_username_regex'', ''auth.ldap.dn.user.validRegex''),
     (''user_search_base'', ''auth.ldap.dn.user.searchBase''),
     (''user_attribute'', ''auth.ldap.dn.user.attribute'')
   ]"

definition authenticator :: "world \<Rightarrow> pyval \<Rightarrow> stmt" where
  "authenticator w cfg =
     (let auth_type = get_config cfg ''auth.type'' VNone
      in if auth_type = VStr ''google'' then
           seq [
             setattr ''JupyterHub'' ''authenticator_class''
               (Val (VStr ''oauthenticator.GoogleOAuthenticator'')),
             set_traits cfg ''GoogleOAuthenticator'' ''auth.google.''
               (common_oauth_traits @ [(''hosted_domain'', None), (''login_service'', None)])
           ]
         else if auth_type = VStr ''github'' then
           seq [
             setattr ''JupyterHub'' ''authenticator_class''
               (Val (VStr ''oauthenticator.github.GitHubOAuthenticator'')),
             set_traits cfg ''GitHubOAuthenticator'' ''auth.github.''
               (common_oauth_traits @ [(''github_organization_whitelist'', Some ''orgWhitelist'')])
           ]
         else if auth_type = VStr ''cilogon'' then
           seq [
             setattr ''JupyterHub'' ''authenticator_class''
               (Val (VStr ''oauthenticator.CILogonOAuthenticator'')),
             set_traits_keyed cfg ''CILogonOAuthenticator'' ''auth.cilogon.'' common_oauth_traits
           ]
         else if auth_type = VStr ''gitlab'' then
           seq [
             setattr ''JupyterHub'' ''authenticator_class''
               (Val (VStr ''oauthenticator.gitlab.GitLabOAuthenticator'')),
             set_traits_keyed cfg ''GitLabOAuthenticator'' ''auth.gitlab.'' common_oauth_traits
           ]
         else if auth_type = VStr ''mediawiki'' then
           seq [
             setattr ''JupyterHub'' ''authenticator_class''
               (Val (VStr ''oauthenticator.mediawiki.MWOAuthenticator'')),
             set_traits_keyed cfg ''MWOAuthenticator'' ''auth.mediawiki.''
               (common_oauth_traits @ [(''index_url'', None)])
           ]
         else if auth_type = VStr ''globus'' then
           seq [
             setattr ''JupyterHub'' ''authenticator_class''
               (Val (VStr ''oauthenticator.globus.GlobusOAuthenticator'')),
             set_traits_keyed cfg ''GlobusOAuthenticator'' ''auth.globus.''
               (common_oauth_traits @ [(''identity_provider'', None)])
           ]
         else if auth_type = VStr ''hmac'' then
           seq [
             setattr ''JupyterHub'' ''authenticator_class''
               (Val (VStr ''hmacauthenticator.HMACAuthenticator'')),
             eval (bytes_fromhex w (get_config cfg ''auth.hmac.secretKey'' VNone))
               (\<lambda>b. setattr ''HMACAuthenticator'' ''secret_key'' (Bytes b))
           ]
         else if auth_type = VStr ''dummy'' then
           seq [
             setattr ''JupyterHub'' ''authenticator_class''
               (Val (VStr ''dummyauthenticator.DummyAuthenticator'')),
             set_config_if_not_none cfg ''DummyAuthenticator'' ''password'' ''auth.dummy.password''
           ]
         else if auth_type = VStr ''tmp'' then
           setattr ''JupyterHub'' ''authenticator_class''
             (Val (VStr ''tmpauthenticator.TmpAuthenticator''))
         else if auth_type = VStr ''lti'' then
           seq [
             setattr ''JupyterHub'' ''authenticator_class''
               (Val (VStr ''ltiauthenticator.LTIAuthenticator'')),
             set_config_if_not_none cfg ''LTIAuthenticator'' ''consumers'' ''auth.lti.consumers''
           ]
         else if auth_type = VStr ''ldap'' then
           seq ([
             setattr ''JupyterHub'' ''authenticator_class''
               (Val (VStr ''ldapauthenticator.LDAPAuthenticator'')),
             setattr ''LDAPAuthenticator'' ''server_address''
               (Val (get_config cfg ''auth.ldap.server.address'' VNone))
           ] @ map (\<lambda>(name, key). set_config_if_not_none cfg ''LDAPAuthenticator'' name key)
                   ldap_traits)
         else if auth_type = VStr ''custom'' then
           (let full_class_name = get_config cfg ''auth.custom.className'' VNone;
                auth_config = get_config cfg ''auth.custom.config'' VNone
            in seq [
              setattr ''JupyterHub'' ''authenticator_class'' (Val full_class_name),
              eval (case full_class_name of
                      VStr n \<Rightarrow> Inr (after_last CHR ''.'' n)
                    | _ \<Rightarrow> Inl AttributeError)
                (\<lambda>auth_class_name.
                   top_update (VStr auth_class_name)
                     (if truthy auth_config then auth_config else VDict []))
            ])
         else raise (ValueError (''Unhandled auth type: '' @ py_repr auth_type)))"

definition auth_settings :: "pyval \<Rightarrow> stmt" where
  "auth_settings cfg =
     seq [
       set_config_if_not_none cfg ''OAuthenticator'' ''scope'' ''auth.scopes'',
       set_config_if_not_none cfg ''Authenticator'' ''enable_auth_state'' ''auth.state.enabled'',
       set_config_if_not_none cfg ''JupyterHub'' ''admin_access'' ''auth.admin.access'',
       set_config_if_not_none cfg ''Authenticator'' ''admin_users'' ''auth.admin.users'',
       set_config_if_not_none cfg ''Authenticator'' ''whitelist'' ''auth.whitelist.users''
     ]"

subsection \<open>Services and roles\<close>

definition services_init :: stmt where
  "services_init =
     seq [
       setattr ''JupyterHub'' ''services'' (Val (VList [])),
       setattr ''JupyterHub'' ''load_roles'' (Val (VList []))
     ]"

text \<open>The command line of the idle culler, given what \<open>url_path_join\<close> returned.\<close>

definition cull_cmd :: "pyval \<Rightarrow> string \<Rightarrow> string list" where
  "cull_cmd cfg url =
     (let cull_timeout = get_config cfg ''cull.timeout'' VNone;
          cull_every = get_config cfg ''cull.every'' VNone;
          cull_concurrency = get_config cfg ''cull.concurrency'' VNone;
          cull_max_age = get_config cfg ''cull.maxAge'' VNone
      in [''python3'', ''-m'', ''jupyterhub_idle_culler'']
         @ [''--url=http://localhost:8081'' @ url]
         @ (if truthy cull_timeout then [''--timeout='' @ py_str cull_timeout] else [])
         @ (if truthy cull_every then [''--cull-every='' @ py_str cull_every] else [])
         @ (if truthy cull_concurrency then [''--concurrency='' @ py_str cull_concurrency] else [])
         @ (if truthy (get_config cfg ''cull.users'' VNone) then [''--cull-users''] else [])
         @ (if \<not> truthy (get_config cfg ''cull.adminUsers'' VNone)
            then [''--cull-admin-users=false''] else [])
         @ (if truthy (get_config cfg ''cull.removeNamedServers'' VNone)
            then [''--remove-named-servers''] else [])
         @ (if truthy cull_max_age then [''--max-age='' @ py_str cull_max_age] else []))"

definition cull_scopes :: "pyval \<Rightarrow> string list" where
  "cull_scopes cfg =
     [''list:users'', ''read:users:activity'', ''read:servers'', ''delete:servers'']
     @ (if truthy (get_config cfg ''cull.users'' VNone) then [''admin:users''] else [])"

definition jupyterhub_idle_culler_role :: "pyval \<Rightarrow> pyval" where
  "jupyterhub_idle_culler_role cfg =
     VDict [(VStr ''name'', VStr ''jupyterhub-idle-culler''),
            (VStr ''scopes'', VList (map VStr (cull_scopes cfg))),
            (VStr ''services'', VList [VStr ''jupyterhub-idle-culler''])]"

definition cull_service :: "pyval \<Rightarrow> string \<Rightarrow> pyval" where
  "cull_service cfg url =
     VDict [(VStr ''name'', VStr ''jupyterhub-idle-culler''),
            (VStr ''command'', VList (map VStr (cull_cmd cfg url)))]"

text \<open>\<open>c.JupyterHub.get("base_url", "/")\<close> is what the category holds, or the default.\<close>

definition idle_culler :: "world \<Rightarrow> pyval \<Rightarrow> stmt" where
  "idle_culler w cfg s =
     (if truthy (get_config cfg ''cull.enabled'' (VBool False))
      then (let base_url = (case getattr s ''JupyterHub'' ''base_url'' of
                              None \<Rightarrow> Val (VStr ''/'')
                            | Some v \<Rightarrow> v)
            in eval (url_path_join w base_url ''hub/api'')
                 (\<lambda>url. seq [
                    attr_append ''JupyterHub'' ''services'' (cull_service cfg url),
                    attr_append ''JupyterHub'' ''load_roles'' (jupyterhub_idle_culler_role cfg)
                  ]) s)
      else skip s)"

definition hub_service :: "world \<Rightarrow> pyval \<times> pyval \<Rightarrow> stmt" where
  "hub_service w item =
     (case item of (key, service) \<Rightarrow>
        (case service of
           VDict d \<Rightarrow>
             eval (get_secret_value w (''hub.services.'' @ py_str key @ ''.apiToken''))
               (\<lambda>token.
                  attr_append ''JupyterHub'' ''services''
                    (VDict (dict_set (VStr ''api_token'') (VStr token)
                              (dict_pop (VStr ''apiToken'')
                                 (dict_setdefault (VStr ''name'') key d)))))
         | _ \<Rightarrow> raise AttributeError))"

definition hub_services :: "world \<Rightarrow> pyval \<Rightarrow> stmt" where
  "hub_services w cfg =
     eval (py_items (get_config cfg ''hub.services'' (VDict [])))
       (\<lambda>items. seq (map (hub_service w) items))"

definition hub_load_role :: "pyval \<times> pyval \<Rightarrow> stmt" where
  "hub_load_role item =
     (case item of (key, role) \<Rightarrow>
        (case role of
           VDict d \<Rightarrow>
             attr_append ''JupyterHub'' ''load_roles''
               (VDict (dict_setdefault (VStr ''name'') key d))
         | _ \<Rightarrow> raise AttributeError))"

definition hub_load_roles :: "pyval \<Rightarrow> stmt" where
  "hub_load_roles cfg =
     eval (py_items (get_config cfg ''hub.loadRoles'' (VDict [])))
       (\<lambda>items. seq (map hub_load_role items))"

subsection \<open>Command, default URL, cloud metadata, debugging\<close>

text \<open>
  The default handed to \<open>get_config\<close> here is a fresh object, which no value of the
  tree is: the result is that object exactly when the path does not resolve.
\<close>

definition specified_cmd :: "pyval \<Rightarrow> stmt" where
  "specified_cmd cfg =
     (case find_config cfg ''singleuser.cmd'' of
        None \<Rightarrow> skip
      | Some cmd \<Rightarrow> setattr ''Spawner'' ''cmd'' (Val cmd))"

definition default_url :: "pyval \<Rightarrow> stmt" where
  "default_url cfg =
     set_config_if_not_none cfg ''Spawner'' ''default_url'' ''singleuser.defaultUrl''"

definition ip_block_container :: "pyval \<Rightarrow> pyval \<Rightarrow> pyval" where
  "ip_block_container cfg ip =
     VObj ''V1Container'' [
       (''name'', VStr ''block-cloud-metadata''),
       (''image'', VStr (py_str (get_config cfg ''singleuser.networkTools.image.name'' VNone)
                         @ '':''
                         @ py_str (get_config cfg ''singleuser.networkTools.image.tag'' VNone))),
       (''command'', VList (map VStr [''iptables'', ''--append'', ''OUTPUT'', ''--protocol'', ''tcp'',
                                      ''--destination''] @ [ip]
                            @ map VStr [''--destination-port'', ''80'', ''--jump'', ''DROP''])),
       (''security_context'',
        VObj ''V1SecurityContext'' [
          (''privileged'', VBool True),
          (''run_as_user'', VInt 0),
          (''capabilities'', VObj ''V1Capabilities'' [(''add'', VList [VStr ''NET_ADMIN''])])]),
       (''resources'', get_config cfg ''singleuser.networkTools.resources'' VNone)
     ]"

definition cloud_metadata :: "pyval \<Rightarrow> stmt" where
  "cloud_metadata cfg =
     (let cloud_metadata = get_config cfg ''singleuser.cloudMetadata'' VNone
      in eval (py_get cloud_metadata ''blockWithIptables'' VNone)
           (\<lambda>block. if eq_True block
                     then eval (py_getitem cloud_metadata ''ip'')
                            (\<lambda>ip. attr_append ''KubeSpawner'' ''init_containers''
                                     (ip_block_container cfg ip))
                     else skip))"

definition debug :: "pyval \<Rightarrow> stmt" where
  "debug cfg =
     (if truthy (get_config cfg ''debug.enabled'' (VBool False))
      then seq [
             setattr ''JupyterHub'' ''log_level'' (Val (VStr ''DEBUG'')),
             setattr ''Spawner'' ''debug'' (Val (VBool True))
           ]
      else skip)"

subsection \<open>Seeded secrets and \<open>hub.config\<close>\<close>

definition seeded_secrets :: "world \<Rightarrow> stmt" where
  "seeded_secrets w =
     seq [
       eval (get_secret_value w ''hub.config.JupyterHub.cookie_secret'')
         (\<lambda>v. setattr ''JupyterHub'' ''cookie_secret'' (Val (VStr v))),
       eval (get_secret_value w ''hub.config.CryptKeeper.keys'')
         (\<lambda>v. setattr ''CryptKeeper'' ''keys'' (Val (VList (map VStr (split_on CHR '';'' v)))))
     ]"

fun pops :: "string list \<Rightarrow> pyval \<Rightarrow> error + pyval" where
  "pops [] v = Inr v"
| "pops (k # ks) v = (case py_pop k v of Inl e \<Rightarrow> Inl e | Inr v' \<Rightarrow> pops ks v')"

text \<open>
  The loop over \<open>hub.config\<close>: for the three names that carry secrets the named keys
  are popped from the entry first, then \<open>c[app]\<close> is updated with what is left.
\<close>

definition stripped_keys :: "pyval \<Rightarrow> string list" where
  "stripped_keys app =
     (if app = VStr ''JupyterHub'' then [''proxy_auth_token'', ''cookie_secret'', ''services'']
      else if app = VStr ''ConfigurableHTTPProxy'' then [''auth_token'']
      else if app = VStr ''CryptKeeper'' then [''keys'']
      else [])"

definition hub_config_app :: "pyval \<times> pyval \<Rightarrow> stmt" where
  "hub_config_app item =
     (case item of (app, cfg) \<Rightarrow>
        eval (pops (stripped_keys app) cfg) (\<lambda>cfg'. top_update app cfg'))"

definition hub_config :: "pyval \<Rightarrow> stmt" where
  "hub_config cfg =
     eval (py_items (get_config cfg ''hub.config'' (VDict [])))
       (\<lambda>apps. seq (map hub_config_app apps))"

subsection \<open>Extra configuration fragments\<close>

definition config_dir :: string where
  "config_dir = ''/usr/local/etc/jupyterhub/jupyterhub_config.d''"

text \<open>
  A file of the directory: the progress line is printed, the file is read, and its
  text is compiled under the file's name and executed.
\<close>

definition load_config_file :: "world \<Rightarrow> string \<Rightarrow> stmt" where
  "load_config_file w file_path =
     (let file_name = after_last CHR ''/'' file_path
      in seq [
        py_print (''Loading '' @ config_dir @ '' config: '' @ file_name),
        eval (read_file w file_path) (\<lambda>file_content. exec_py w file_name file_content)
      ])"

definition config_d :: "world \<Rightarrow> stmt" where
  "config_d w =
     (if isdir w config_dir
      then seq (map (load_config_file w) (sort (glob w (config_dir @ ''/*.py''))))
      else skip)"

text \<open>
  An entry of \<open>hub.extraConfig\<close>: \<open>exec\<close> of a string runs it under the file name
  \<open><string>\<close>; a value that is not a string cannot be executed.
\<close>

definition load_extra_config :: "world \<Rightarrow> pyval \<times> pyval \<Rightarrow> stmt" where
  "load_extra_config w item =
     (case item of (key, config_py) \<Rightarrow>
        seq [
          py_print (''Loading extra config: '' @ py_str key),
          (case config_py of
             VStr src \<Rightarrow> exec_py w ''<string>'' src
           | _ \<Rightarrow> raise TypeError)
        ])"

text \<open>
  The entries are read from the configuration tree when the loop starts, that is after
  the files of the directory have run.
\<close>

definition extra_config :: "world \<Rightarrow> stmt" where
  "extra_config w s =
     eval (py_items (get_config (tree s) ''hub.extraConfig'' (VDict [])))
       (\<lambda>items. eval (sorted_items items)
          (\<lambda>sorted_items. seq (map (load_extra_config w) sorted_items))) s"

subsection \<open>Registering the hooks, and the whole script\<close>

text \<open>
  The hooks are registered by reference. The import of the authenticator library that
  precedes the two assignments is taken to succeed.
\<close>

definition ldap_hooks :: "pyval \<Rightarrow> stmt" where
  "ldap_hooks cfg =
     (if get_config cfg ''auth.type'' VNone = VStr ''ldap''
      then seq [
             setattr ''Authenticator'' ''post_auth_hook'' (Ref ''LDAPAuthenticator.build_profile''),
             setattr ''Spawner'' ''pre_spawn_hook'' (Ref ''spawner_config'')
           ]
      else skip)"

definition before_authenticator :: "world \<Rightarrow> pyval \<Rightarrow> stmt list" where
  "before_authenticator w cfg = [
     proxy_and_hub_defaults w,
     db_connection w cfg,
     hub_settings cfg,
     hub_urls w,
     common_labels cfg,
     pod_namespace,
     consecutive_failure_limit cfg,
     kubespawner_settings cfg,
     singleuser_image cfg,
     allow_privilege_escalation cfg,
     image_pull_secrets w cfg,
     scheduling w cfg,
     node_purpose_affinity cfg,
     tolerations cfg,
     storage cfg,
     extra_files w cfg,
     extra_volumes cfg,
     lifecycle_hooks cfg,
     hub_connect w
   ]"

definition after_authenticator :: "world \<Rightarrow> pyval \<Rightarrow> stmt list" where
  "after_authenticator w cfg = [
     auth_settings cfg,
     services_init,
     idle_culler w cfg,
     hub_services w cfg,
     hub_load_roles cfg,
     specified_cmd cfg,
     default_url cfg,
     cloud_metadata cfg,
     debug cfg,
     seeded_secrets w,
     hub_config cfg,
     config_d w,
     extra_config w,
     ldap_hooks cfg
   ]"

text \<open>
  The script runs on the configuration tree of the state it starts in. Nothing changes
  the tree before the first fragment runs, so the statements up to there take the tree
  the script started with; the entries of \<open>hub.extraConfig\<close> are read from the tree
  as the files of the directory left it; and the last statement tests the name
  \<open>auth_type\<close>, bound when the authenticator was selected.
\<close>

definition jupyterhub_config :: "world \<Rightarrow> stmt" where
  "jupyterhub_config w s =
     seq (before_authenticator w (tree s) @ [authenticator w (tree s)]
          @ after_authenticator w (tree s)) s"

section \<open>The pre-spawn hook\<close>

text \<open>
  The hook runs in the hosting service, on a spawner object. The user's authentication
  state is a cell that \<open>save_auth_state\<close> writes and \<open>get_auth_state\<close> reads
  (None when there is none). The directory lookup and the profile builder belong to
  the authenticator library and are taken as they come; \<open>spawner_git_server\<close> is the
  value the script read at \<open>hub.spawner.git_server\<close>.
\<close>

record user =
  name :: string
  admin :: bool
  auth_state :: pyval

record spawner =
  user :: user
  uid :: pyval
  gid :: pyval
  fs_gid :: pyval
  supplemental_gids :: pyval
  environment :: "string \<rightharpoonup> pyval"

record hook_world =
  user_dn_lookup :: "string \<Rightarrow> error + pyval"
  build_profile :: "pyval \<Rightarrow> error + pyval"
  spawner_git_server :: pyval

definition bindE :: "error + 'a \<Rightarrow> ('a \<Rightarrow> error + 'b) \<Rightarrow> error + 'b" where
  "bindE r k = (case r of Inl e \<Rightarrow> Inl e | Inr v \<Rightarrow> k v)"

text \<open>The first part: without a cached profile, one is resolved and saved.\<close>

definition ensure_profile :: "hook_world \<Rightarrow> spawner \<Rightarrow> error + spawner" where
  "ensure_profile h sp =
     (let state0 = auth_state (user sp)
      in bindE (if state0 = VNone then Inr True
                else bindE (py_contains ''profile'' state0) (\<lambda>b. Inr (\<not> b)))
           (\<lambda>missing.
              if missing
              then bindE (user_dn_lookup h (name (user sp))) (\<lambda>dn.
                   bindE (build_profile h
                            (VDict [(VStr ''name'', VStr (name (user sp))),
                                    (VStr ''auth_state'',
                                     VDict [(VStr ''profile'', VDict [(VStr ''dn'', dn)])])]))
                     (\<lambda>built.
                   bindE (py_get built ''auth_state'' VNone) (\<lambda>new_state.
                     Inr (sp\<lparr>user := (user sp)\<lparr>auth_state := new_state\<rparr>\<rparr>))))
              else Inr sp))"

text \<open>\<open>sep.join(xs)\<close>: every item has to be a string.\<close>

definition join_strs :: "string \<Rightarrow> pyval list \<Rightarrow> error + string" where
  "join_strs sep xs =
     bindE (mapE (\<lambda>x. case x of VStr s \<Rightarrow> Inr s | _ \<Rightarrow> Inl TypeError) xs)
       (\<lambda>ss. Inr (join sep ss))"

definition group_build :: "pyval \<Rightarrow> error + string" where
  "group_build group_map =
     bindE (py_items group_map) (\<lambda>items.
     bindE (mapE (\<lambda>(k, v). join_strs '':'' [v, VStr (py_str k)]) items) (\<lambda>parts.
       Inr (join '' '' parts)))"

definition group_member :: "pyval \<Rightarrow> error + string" where
  "group_member group_membership =
     bindE (py_iter group_membership) (\<lambda>xs. Inr (join '' '' (map py_str xs)))"

text \<open>
  \<open>auth_state['profile'][k]\<close>, read again at each use as the source does.
\<close>

definition profile_field :: "spawner \<Rightarrow> string \<Rightarrow> error + pyval" where
  "profile_field sp k =
     bindE (py_getitem (auth_state (user sp)) ''profile'') (\<lambda>profile. py_getitem profile k)"

definition set_env :: "string \<Rightarrow> pyval \<Rightarrow> spawner \<Rightarrow> spawner" where
  "set_env k v sp = sp\<lparr>environment := (environment sp)(k \<mapsto> v)\<rparr>"

definition grant_sudo :: "spawner \<Rightarrow> error + bool" where
  "grant_sudo sp =
     (if admin (user sp) then Inr True
      else bindE (py_getitem (auth_state (user sp)) ''profile'') (\<lambda>profile.
           bindE (py_get profile ''advanced'' (VBool False)) (\<lambda>a. Inr (truthy a))))"

definition apply_profile :: "hook_world \<Rightarrow> spawner \<Rightarrow> error + spawner" where
  "apply_profile h sp0 =
     (let sp1 = sp0\<lparr>uid := VInt 0\<rparr>;
          sp2 = sp1\<lparr>gid := VInt 0\<rparr>
      in bindE (profile_field sp2 ''gid'') (\<lambda>g.
         let sp3 = sp2\<lparr>fs_gid := g\<rparr>
         in bindE (profile_field sp3 ''group_membership'') (\<lambda>m.
         let sp4 = sp3\<lparr>supplemental_gids := m\<rparr>;
             sp5 = set_env ''NB_USER'' (VStr (name (user sp4))) sp4
         in bindE (profile_field sp5 ''uid'') (\<lambda>u.
         let sp6 = set_env ''NB_UID'' (VStr (py_str u)) sp5
         in bindE (profile_field sp6 ''gid'') (\<lambda>g'.
         let sp7 = set_env ''NB_GID'' (VStr (py_str g')) sp6
         in bindE (grant_sudo sp7) (\<lambda>sudo.
         let sp8 = (if sudo then set_env ''GRANT_SUDO'' (VStr ''1'') sp7 else sp7);
             sp9 = set_env ''GIT_SSH_HOST'' (spawner_git_server h) sp8;
             sp10 = set_env ''NOTEBOOK_DIR''
                      (VStr (''/home/'' @ name (user sp9) @ ''/jupyter'')) sp9
         in bindE (profile_field sp10 ''group_map'') (\<lambda>gm.
            bindE (group_build gm) (\<lambda>gb.
         let sp11 = set_env ''GROUP_BUILD'' (VStr gb) sp10
         in bindE (profile_field sp11 ''group_membership'') (\<lambda>m'.
            bindE (group_member m') (\<lambda>gmem.
              Inr (set_env ''GROUP_MEMBER'' (VStr gmem) sp11)))))))))))"

definition spawner_config :: "hook_world \<Rightarrow> spawner \<Rightarrow> error + spawner" where
  "spawner_config h sp = bindE (ensure_profile h sp) (apply_profile h)"


section \<open>Notions used in the statements\<close>

text \<open>
  A key is configured when it is present in the configuration tree with a value other
  than None; \<open>configured\<close> is that value.
\<close>

definition configured :: "pyval \<Rightarrow> string \<Rightarrow> pyval option" where
  "configured cfg key =
     (case find_config cfg key of
        None \<Rightarrow> None
      | Some v \<Rightarrow> (if v = VNone then None else Some v))"

text \<open>What \<open>get_config\<close> returns for the key of an (attribute, key) pair.\<close>

definition pair_value :: "pyval \<Rightarrow> string \<Rightarrow> string \<times> string option \<Rightarrow> pyval" where
  "pair_value cfg prefix p = get_config cfg (prefix @ source_key (fst p) (snd p)) VNone"

text \<open>
  The state the script starts from: no setting made, nothing printed. \<open>init_state\<close> has
  an empty configuration tree, \<open>start_state\<close> a given one.
\<close>

definition init_state :: "(string \<rightharpoonup> string) \<Rightarrow> state" where
  "init_state env =
     \<lparr>conf = (\<lambda>sec. Map.empty), lazy_values = Map.empty, environ = env, trace = [],
      tree = VDict []\<rparr>"

definition start_state :: "(string \<rightharpoonup> string) \<Rightarrow> pyval \<Rightarrow> state" where
  "start_state env cfg = (init_state env)\<lparr>tree := cfg\<rparr>"

text \<open>
  A sample deployment for the examples: every resource name resolves to itself, the
  service ports are 8081, there is no secret, no fragment directory, and a fragment
  does nothing.
\<close>

definition sample_world :: world where
  "sample_world =
     \<lparr>get_name = (\<lambda>n. Inr n),
      get_name_env = (\<lambda>n suffix. Inr ''8081''),
      secrets = Map.empty,
      url_path_join = (\<lambda>base p. case base of
                                   Val (VStr b) \<Rightarrow> Inr (b @ p)
                                 | _ \<Rightarrow> Inl AttributeError),
      int_of_str = (\<lambda>s. if s = ''8081'' then Inr 8081 else Inl (ValueError s)),
      bytes_fromhex = (\<lambda>v. Inl TypeError),
      isdir = (\<lambda>d. False),
      glob = (\<lambda>p. []),
      read_file = (\<lambda>p. Inl (LibraryError p)),
      exec_py = (\<lambda>file_name src s. (s, None))\<rparr>"

definition sample_env :: "string \<rightharpoonup> string" where
  "sample_env = [''HUB_SERVICE_HOST'' \<mapsto> ''10.0.0.1'', ''HUB_SERVICE_PORT'' \<mapsto> ''8081'']"

text \<open>
  Two trees that configure the same OAuth client, one for the cilogon authenticator
  and one for the github authenticator.
\<close>

definition oauth_client :: pyval where
  "oauth_client =
     VDict [(VStr ''clientId'', VStr ''hub''),
            (VStr ''clientSecret'', VStr ''s3cret''),
            (VStr ''callbackUrl'', VStr ''https://hub.example.org/hub/oauth_callback'')]"

definition sample_cilogon :: pyval where
  "sample_cilogon =
     VDict [(VStr ''auth'', VDict [(VStr ''type'', VStr ''cilogon''),
                                  (VStr ''cilogon'', oauth_client)])]"

definition sample_github :: pyval where
  "sample_github =
     VDict [(VStr ''auth'', VDict [(VStr ''type'', VStr ''github''),
                                  (VStr ''github'', oauth_client)])]"

text \<open>The directory profile of the worked example, and a spawner that has it cached.\<close>

definition sample_profile :: pyval where
  "sample_profile =
     VDict [(VStr ''uid'', VInt 1000),
            (VStr ''gid'', VInt 2000),
            (VStr ''group_membership'', VList [VInt 2000, VInt 3000]),
            (VStr ''group_map'', VDict [(VInt 2000, VStr ''g1''), (VInt 3000, VStr ''g2'')]),
            (VStr ''advanced'', VBool False)]"

definition sample_spawner :: spawner where
  "sample_spawner =
     \<lparr>user = \<lparr>name = ''ada'', admin = False,
              auth_state = VDict [(VStr ''profile'', sample_profile)]\<rparr>,
      uid = VInt 1000, gid = VInt 2000, fs_gid = VNone, supplemental_gids = VNone,
      environment = Map.empty\<rparr>"

text \<open>
  The same spawner with the profile's mappings written in another order, and the same
  spawner with an environment that holds GRANT_SUDO before the hook runs (as one
  configured through \<open>singleuser.extraEnv\<close> does).
\<close>

definition sample_spawner_reordered :: spawner where
  "sample_spawner_reordered =
     sample_spawner
       \<lparr>user := \<lparr>name = ''ada'', admin = False,
                 auth_state = VDict [(VStr ''profile'',
                   VDict [(VStr ''advanced'', VBool False),
                          (VStr ''group_map'', VDict [(VInt 3000, VStr ''g2''), (VInt 2000, VStr ''g1'')]),
                          (VStr ''group_membership'', VList [VInt 2000, VInt 3000]),
                          (VStr ''gid'', VInt 2000),
                          (VStr ''uid'', VInt 1000)])]\<rparr>\<rparr>"

definition sample_spawner_sudo :: spawner where
  "sample_spawner_sudo = sample_spawner\<lparr>environment := [''GRANT_SUDO'' \<mapsto> VStr ''yes'']\<rparr>"

definition sample_hook_world :: hook_world where
  "sample_hook_world =
     \<lparr>user_dn_lookup = (\<lambda>n. Inl (LibraryError n)),
      build_profile = (\<lambda>v. Inl (LibraryError ''build_profile'')),
      spawner_git_server = VStr ''git.example.org''\<rparr>"

text \<open>
  The items that the settings object holds for a list attribute: those of the list it
  is set to, or those to be appended to the hosting service's default when it is a
  lazy value or not set at all. An attribute set to something else holds no list.
\<close>

definition attr_items :: "state \<Rightarrow> string \<Rightarrow> string \<Rightarrow> pyval list option" where
  "attr_items s sec a =
     (case getattr s sec a of
        None \<Rightarrow> Some []
      | Some (Lazy xs) \<Rightarrow> Some xs
      | Some (Val (VList xs)) \<Rightarrow> Some xs
      | Some _ \<Rightarrow> None)"

text \<open>The name that a string value gives (the empty name for any other value).\<close>

definition name_of :: "pyval \<Rightarrow> string" where
  "name_of v = (case v of VStr n \<Rightarrow> n | _ \<Rightarrow> [])"

text \<open>
  The five entries of \<open>hub.config\<close> that are not to reach the settings object, as
  (category, attribute) pairs.
\<close>

definition secret_entries :: "(string \<times> pyval) set" where
  "secret_entries =
     {(''JupyterHub'', VStr ''proxy_auth_token''),
      (''JupyterHub'', VStr ''cookie_secret''),
      (''JupyterHub'', VStr ''services''),
      (''ConfigurableHTTPProxy'', VStr ''auth_token''),
      (''CryptKeeper'', VStr ''keys'')}"

definition sample_secrets :: "string \<rightharpoonup> string" where
  "sample_secrets =
     [''hub.config.JupyterHub.cookie_secret'' \<mapsto> ''c0ffee'',
      ''hub.config.CryptKeeper.keys'' \<mapsto> ''k1;k2'']"

definition sample_hub_config :: pyval where
  "sample_hub_config =
     VDict [(VStr ''hub'', VDict [(VStr ''config'', VDict [
        (VStr ''JupyterHub'', VDict [(VStr ''cookie_secret'', VStr ''overridden''),
                                     (VStr ''admin_access'', VBool True)]),
        (VStr ''CryptKeeper'', VDict [(VStr ''keys'', VList [VStr ''other'']),
                                      (VStr ''n_threads'', VInt 4)]),
        (VStr ''myapp'', VDict [(VStr ''level'', VInt 3)])])])]"

text \<open>
  Running a list of fragments one after the other: each comes with the line that
  announces it and the file name it runs under; the line is printed, then the fragment
  acts on the state; the first error ends the run.
\<close>

fun run_fragments :: "world \<Rightarrow> (string \<times> string \<times> string) list \<Rightarrow> stmt" where
  "run_fragments w [] s = (s, None)"
| "run_fragments w ((line, file_name, src) # fs) s =
     (case exec_py w file_name src (s\<lparr>trace := trace s @ [line]\<rparr>) of
        (s', None) \<Rightarrow> run_fragments w fs s'
      | (s', Some e) \<Rightarrow> (s', Some e))"

text \<open>
  The fragment that a file of the directory is: announced and run under its file name,
  with the text that reading the file gives. The fragment that an entry of
  \<open>hub.extraConfig\<close> is: announced by its key, run under \<open><string>\<close>.
\<close>

definition file_fragment :: "world \<Rightarrow> string \<Rightarrow> string \<times> string \<times> string" where
  "file_fragment w file_path =
     (''Loading '' @ config_dir @ '' config: '' @ after_last CHR ''/'' file_path,
      after_last CHR ''/'' file_path,
      (case read_file w file_path of Inl e \<Rightarrow> [] | Inr file_content \<Rightarrow> file_content))"

definition entry_fragment :: "pyval \<times> pyval \<Rightarrow> string \<times> string \<times> string" where
  "entry_fragment item =
     (''Loading extra config: '' @ py_str (fst item),
      ''<string>'',
      (case snd item of VStr src \<Rightarrow> src | _ \<Rightarrow> []))"

text \<open>
  A directory with two fragments, listed out of order, and a tree with two more. In
  this sample, what a fragment does is to append its text to the list
  \<open>Sample.loaded\<close> of the settings object.
\<close>

definition sample_fragments_world :: world where
  "sample_fragments_world =
     sample_world
       \<lparr>isdir := (\<lambda>d. d = config_dir),
        glob := (\<lambda>pat. if pat = config_dir @ ''/*.py''
                       then [config_dir @ ''/b.py'', config_dir @ ''/a.py'']
                       else []),
        read_file := (\<lambda>p. if p = config_dir @ ''/a.py'' then Inr ''x = 1''
                          else if p = config_dir @ ''/b.py'' then Inr ''y = 2''
                          else Inl (LibraryError p)),
        exec_py := (\<lambda>file_name src. attr_append ''Sample'' ''loaded'' (VStr src))\<rparr>"

definition sample_extra_config :: pyval where
  "sample_extra_config =
     VDict [(VStr ''hub'', VDict [(VStr ''extraConfig'',
        VDict [(VStr ''z-last'', VStr ''z = 26''), (VStr ''a-first'', VStr ''a = 1'')])])]"

section \<open>Properties\<close>

subsection \<open>Running statements\<close>

lemma seq_append: "seq (fs @ gs) s = (case seq fs s of (s', None) \<Rightarrow> seq gs s' | (s', Some e) \<Rightarrow> (s', Some e))"
  by (induction fs arbitrary: s) (auto split: prod.splits option.splits)

lemmas stmt_defs = skip_def raise_def eval_def setattr_def setenv_def getenv_def py_print_def
  getattr_def attr_append_def attr_extend_def set_config_if_not_none_def set_traits_def
  set_traits_keyed_def section_update_def

lemmas tree_defs = get_config_def find_config_def


lemmas before_authenticator_defs = before_authenticator_def
  proxy_and_hub_defaults_def db_connection_def hub_settings_def hub_urls_def common_labels_def
  pod_namespace_def consecutive_failure_limit_def kubespawner_settings_def singleuser_image_def
  allow_privilege_escalation_def image_pull_secrets_def scheduling_def node_purpose_affinity_def
  tolerations_def storage_def extra_files_def extra_volumes_def lifecycle_hooks_def hub_connect_def
  hub_traits_def kubespawner_traits_def source_key_def extend_if_set_def

subsection \<open>Key-name derivation\<close>

lemma camelCaseify_lower_append:
  "\<forall>ch \<in> set w. is_lower ch \<Longrightarrow> camelCaseify (w @ CHR ''_'' # r) = w @ camelCaseify (CHR ''_'' # r)"
proof (induction w)
  case Nil
  then show ?case by simp
next
  case (Cons a w)
  have na: "a \<noteq> CHR ''_''" using Cons.prems by (auto simp: is_lower_def)
  show ?case
  proof (cases w)
    case Nil
    then show ?thesis using na by simp
  next
    case (Cons b w')
    then show ?thesis using na Cons.IH Cons.prems by simp
  qed
qed

lemma camelCaseify_lower_word:
  "\<forall>ch \<in> set w. is_lower ch \<Longrightarrow> camelCaseify w = w"
proof (induction w rule: camelCaseify.induct)
  case (1 a b s)
  then show ?case by (auto simp: is_lower_def)
qed simp_all
lemma join_cons2: "join sep (w # v # vs) = w @ sep @ join sep (v # vs)"
  by simp

lemma join_cons_cons: "join sep ((b # v') # vs) = b # join sep (v' # vs)"
  by (cases vs) simp_all

lemma camelCaseify_join:
  assumes "\<forall>v \<in> set (w # ws). \<forall>ch \<in> set v. is_lower ch" and "\<forall>v \<in> set ws. v \<noteq> []"
  shows "camelCaseify (join ''_'' (w # ws)) = w @ concat (map capitalize ws)"
  using assms
proof (induction ws arbitrary: w)
  case Nil
  then show ?case by (simp add: camelCaseify_lower_word)
next
  case (Cons v vs)
  have vne: "v \<noteq> []" using Cons.prems(2) by simp
  then obtain b v' where v: "v = b # v'" by (cases v) simp_all
  have lv: "\<forall>ch \<in> set v. is_lower ch" using Cons.prems(1) by simp
  have lb: "is_lower b" using lv v by simp
  have lw: "\<forall>ch \<in> set w. is_lower ch" using Cons.prems(1) by simp
  have p1: "\<forall>u \<in> set (v' # vs). \<forall>ch \<in> set u. is_lower ch"
    using Cons.prems(1) v by simp
  have p2: "\<forall>u \<in> set vs. u \<noteq> []" using Cons.prems(2) by simp
  have IH: "camelCaseify (join ''_'' (v' # vs)) = v' @ concat (map capitalize vs)"
    using p1 p2 by (rule Cons.IH)
  have e1: "join ''_'' (w # v # vs) = w @ CHR ''_'' # b # join ''_'' (v' # vs)"
    unfolding v join_cons2 join_cons_cons by simp
  have e2: "camelCaseify (w @ CHR ''_'' # b # join ''_'' (v' # vs))
            = w @ camelCaseify (CHR ''_'' # b # join ''_'' (v' # vs))"
    using lw by (rule camelCaseify_lower_append)
  have e3: "camelCaseify (CHR ''_'' # b # join ''_'' (v' # vs))
             = upper b # camelCaseify (join ''_'' (v' # vs))"
    using lb by simp
  have e4: "capitalize v = upper b # v'" using v by (simp add: capitalize_def)
  show ?case unfolding e1 e2 e3 IH using e4 by simp
qed

text \<open>
  C6. \<open>camelCaseify\<close> is a function from strings to strings that turns
  underscore-separated lower-case words into camel case with the first word kept as it
  is: \<open>mem_limit\<close> gives \<open>memLimit\<close>, \<open>node_affinity_required\<close> gives
  \<open>nodeAffinityRequired\<close>, and in general the words after the first are capitalised and
  the underscores dropped.
\<close>

theorem camelCaseify_camel_case:
  "camelCaseify ''mem_limit'' = ''memLimit''
   \<and> camelCaseify ''node_affinity_required'' = ''nodeAffinityRequired''
   \<and> (\<forall>w ws. (\<forall>v \<in> set (w # ws). \<forall>ch \<in> set v. is_lower ch) \<and> (\<forall>v \<in> set ws. v \<noteq> [])
         \<longrightarrow> camelCaseify (join ''_'' (w # ws)) = w @ concat (map capitalize ws))"
proof (intro conjI allI impI)
  show "camelCaseify ''mem_limit'' = ''memLimit''"
    by (simp add: is_lower_def upper_def)
  show "camelCaseify ''node_affinity_required'' = ''nodeAffinityRequired''"
    by (simp add: is_lower_def upper_def)
next
  fix w ws
  assume "(\<forall>v \<in> set (w # ws). \<forall>ch \<in> set v. is_lower ch) \<and> (\<forall>v \<in> set ws. v \<noteq> [])"
  then show "camelCaseify (join ''_'' (w # ws)) = w @ concat (map capitalize ws)"
    using camelCaseify_join by blast
qed

theorem camelCaseify_camel_case_witness:
  "list_all (list_all is_lower) [''cpu'', ''guarantee'']
   \<and> camelCaseify ''cpu_guarantee'' = ''cpuGuarantee''"
proof -
  have l: "list_all (list_all is_lower) [''cpu'', ''guarantee'']"
    by (simp add: is_lower_def)
  have h: "(\<forall>v \<in> set (''cpu'' # [''guarantee'']). \<forall>ch \<in> set v. is_lower ch)
           \<and> (\<forall>v \<in> set [''guarantee'']. v \<noteq> [])"
    using l by (simp add: list_all_iff)
  from camelCaseify_camel_case
  have "camelCaseify (join ''_'' (''cpu'' # [''guarantee'']))
        = ''cpu'' @ concat (map capitalize [''guarantee''])"
    using h by blast
  then show ?thesis using l by (simp add: capitalize_def upper_def)
qed

subsection \<open>The loops over (attribute, key) pairs\<close>

lemma set_config_if_not_none_run:
  "set_config_if_not_none cfg sec a key s =
     (if get_config cfg key VNone \<noteq> VNone
      then s\<lparr>conf := (conf s)(sec := (conf s sec)(VStr a \<mapsto> Val (get_config cfg key VNone)))\<rparr>
      else s, None)"
  by (simp add: set_config_if_not_none_def Let_def setattr_def skip_def)

lemma set_traits_Cons:
  "set_traits cfg sec prefix (p # ps) s =
     set_traits cfg sec prefix ps
       (if pair_value cfg prefix p \<noteq> VNone
        then s\<lparr>conf := (conf s)(sec := (conf s sec)(VStr (fst p) \<mapsto> Val (pair_value cfg prefix p)))\<rparr>
        else s)"
  by (cases p) (simp add: set_traits_def set_config_if_not_none_run pair_value_def)

lemma set_traits_Nil: "set_traits cfg sec prefix [] s = (s, None)"
  by (simp add: set_traits_def)

lemma set_traits_effect:
  assumes "distinct (map fst traits)"
  shows "\<exists>s'. set_traits cfg sec prefix traits s = (s', None)
          \<and> s' = s\<lparr>conf := conf s'\<rparr>
          \<and> (\<forall>p \<in> set traits. pair_value cfg prefix p \<noteq> VNone
                \<longrightarrow> conf s' sec (VStr (fst p)) = Some (Val (pair_value cfg prefix p)))
          \<and> (\<forall>p \<in> set traits. pair_value cfg prefix p = VNone
                \<longrightarrow> conf s' sec (VStr (fst p)) = conf s sec (VStr (fst p)))
          \<and> (\<forall>sec' n. sec' \<noteq> sec \<or> n \<notin> (\<lambda>p. VStr (fst p)) ` set traits
                \<longrightarrow> conf s' sec' n = conf s sec' n)"
  using assms
proof (induction traits arbitrary: s)
  case Nil
  then show ?case by (simp add: set_traits_Nil)
next
  case (Cons p ps)
  define s1 where "s1 = (if pair_value cfg prefix p \<noteq> VNone
        then s\<lparr>conf := (conf s)(sec := (conf s sec)(VStr (fst p) \<mapsto> Val (pair_value cfg prefix p)))\<rparr>
        else s)"
  have d: "distinct (map fst ps)" and np: "fst p \<notin> fst ` set ps" using Cons.prems by auto
  from Cons.IH[OF d, of s1] obtain s' where
    r: "set_traits cfg sec prefix ps s1 = (s', None)"
    and e: "s' = s1\<lparr>conf := conf s'\<rparr>"
    and a: "\<forall>q \<in> set ps. pair_value cfg prefix q \<noteq> VNone
                \<longrightarrow> conf s' sec (VStr (fst q)) = Some (Val (pair_value cfg prefix q))"
    and b: "\<forall>q \<in> set ps. pair_value cfg prefix q = VNone
                \<longrightarrow> conf s' sec (VStr (fst q)) = conf s1 sec (VStr (fst q))"
    and c: "\<forall>sec' n. sec' \<noteq> sec \<or> n \<notin> (\<lambda>p. VStr (fst p)) ` set ps
                \<longrightarrow> conf s' sec' n = conf s1 sec' n"
    by blast
  have run: "set_traits cfg sec prefix (p # ps) s = (s', None)"
    using r by (simp add: set_traits_Cons s1_def)
  have e1: "s1 = s\<lparr>conf := conf s1\<rparr>" by (simp add: s1_def)
  have "s' = (s\<lparr>conf := conf s1\<rparr>)\<lparr>conf := conf s'\<rparr>" using e1 e by simp
  then have e': "s' = s\<lparr>conf := conf s'\<rparr>" by simp
  have pn: "VStr (fst p) \<notin> (\<lambda>p. VStr (fst p)) ` set ps" using np by auto
  have p_here: "conf s' sec (VStr (fst p)) = conf s1 sec (VStr (fst p))"
    using c pn by blast
  have a': "\<forall>q \<in> set (p # ps). pair_value cfg prefix q \<noteq> VNone
                \<longrightarrow> conf s' sec (VStr (fst q)) = Some (Val (pair_value cfg prefix q))"
    using a p_here by (auto simp: s1_def)
  have other: "conf s1 sec (VStr (fst q)) = conf s sec (VStr (fst q))" if "q \<in> set ps" for q
  proof -
    have "fst q \<noteq> fst p" using that np by (auto simp: image_iff)
    then show ?thesis by (simp add: s1_def)
  qed
  have b': "\<forall>q \<in> set (p # ps). pair_value cfg prefix q = VNone
                \<longrightarrow> conf s' sec (VStr (fst q)) = conf s sec (VStr (fst q))"
    using b p_here other by (auto simp: s1_def)
  have c': "\<forall>sec' n. sec' \<noteq> sec \<or> n \<notin> (\<lambda>p. VStr (fst p)) ` set (p # ps)
                \<longrightarrow> conf s' sec' n = conf s sec' n"
  proof (intro allI impI)
    fix sec' n
    assume h: "sec' \<noteq> sec \<or> n \<notin> (\<lambda>p. VStr (fst p)) ` set (p # ps)"
    then have "conf s' sec' n = conf s1 sec' n" using c by auto
    also have "\<dots> = conf s sec' n" using h by (auto simp: s1_def)
    finally show "conf s' sec' n = conf s sec' n" .
  qed
  show ?case using run e' a' b' c' by blast
qed

lemma set_traits_permute:
  assumes d: "distinct (map fst traits)" and m: "mset traits' = mset traits"
  shows "set_traits cfg sec prefix traits' s = set_traits cfg sec prefix traits s"
proof -
  have st: "set traits' = set traits" using m by (rule mset_eq_setD)
  have "mset (map fst traits') = mset (map fst traits)" using m by simp
  then have d': "distinct (map fst traits')" using d by (metis distinct_count_atmost_1 set_mset_mset)
  from set_traits_effect[OF d, of cfg sec prefix s] obtain s1 where
    r1: "set_traits cfg sec prefix traits s = (s1, None)"
    and e1: "s1 = s\<lparr>conf := conf s1\<rparr>"
    and a1: "\<forall>p \<in> set traits. pair_value cfg prefix p \<noteq> VNone
                \<longrightarrow> conf s1 sec (VStr (fst p)) = Some (Val (pair_value cfg prefix p))"
    and b1: "\<forall>p \<in> set traits. pair_value cfg prefix p = VNone
                \<longrightarrow> conf s1 sec (VStr (fst p)) = conf s sec (VStr (fst p))"
    and c1: "\<forall>sec' n. sec' \<noteq> sec \<or> n \<notin> (\<lambda>p. VStr (fst p)) ` set traits
                \<longrightarrow> conf s1 sec' n = conf s sec' n"
    by blast
  from set_traits_effect[OF d', of cfg sec prefix s] obtain s2 where
    r2: "set_traits cfg sec prefix traits' s = (s2, None)"
    and e2: "s2 = s\<lparr>conf := conf s2\<rparr>"
    and a2: "\<forall>p \<in> set traits. pair_value cfg prefix p \<noteq> VNone
                \<longrightarrow> conf s2 sec (VStr (fst p)) = Some (Val (pair_value cfg prefix p))"
    and b2: "\<forall>p \<in> set traits. pair_value cfg prefix p = VNone
                \<longrightarrow> conf s2 sec (VStr (fst p)) = conf s sec (VStr (fst p))"
    and c2: "\<forall>sec' n. sec' \<noteq> sec \<or> n \<notin> (\<lambda>p. VStr (fst p)) ` set traits
                \<longrightarrow> conf s2 sec' n = conf s sec' n"
    unfolding st by blast
  have "conf s2 sec' n = conf s1 sec' n" for sec' n
  proof (cases "sec' \<noteq> sec \<or> n \<notin> (\<lambda>p. VStr (fst p)) ` set traits")
    case True
    then show ?thesis using c1 c2 by simp
  next
    case False
    then obtain p where p: "p \<in> set traits" "n = VStr (fst p)" and s: "sec' = sec" by auto
    show ?thesis
    proof (cases "pair_value cfg prefix p = VNone")
      case True
      then show ?thesis using a1 a2 b1 b2 p s by simp
    next
      case False
      then show ?thesis using a1 a2 p s by simp
    qed
  qed
  then have "conf s2 = conf s1" by (intro ext)
  then have "s2 = s1" using e1 e2 by simp
  then show ?thesis using r1 r2 by simp
qed

lemma pair_value_configured:
  "pair_value cfg prefix (trait, cfg_key) =
     (case configured cfg (prefix @ source_key trait cfg_key) of None \<Rightarrow> VNone | Some v \<Rightarrow> v)"
  by (simp add: pair_value_def configured_def get_config_def split: option.splits)

text \<open>
  What a loop with the camel-case fallback does. For every list of (attribute, key)
  pairs with pairwise different attributes that is handled through
  \<open>set_config_if_not_none\<close> on a category: the loop completes; an attribute whose key
  is present and non-null in the configuration tree holds the configured value, and
  one whose key is absent or null holds what it held; every other setting, the
  process environment and the output are untouched; and handling the pairs in any
  other order gives the same state.
\<close>

theorem set_config_pairs:
  assumes "distinct (map fst traits)"
  shows "\<exists>s'. set_traits cfg sec prefix traits s = (s', None)
           \<and> (\<forall>(trait, cfg_key) \<in> set traits.
                 getattr s' sec trait =
                   (case configured cfg (prefix @ source_key trait cfg_key) of
                      None \<Rightarrow> getattr s sec trait
                    | Some v \<Rightarrow> Some (Val v)))
           \<and> (\<forall>sec' n. sec' \<noteq> sec \<or> n \<notin> (\<lambda>p. VStr (fst p)) ` set traits
                 \<longrightarrow> conf s' sec' n = conf s sec' n)
           \<and> environ s' = environ s \<and> trace s' = trace s
           \<and> (\<forall>traits'. mset traits' = mset traits
                 \<longrightarrow> set_traits cfg sec prefix traits' s = (s', None))"
proof -
  from set_traits_effect[OF assms, of cfg sec prefix s] obtain s' where
    r: "set_traits cfg sec prefix traits s = (s', None)"
    and e0: "s' = s\<lparr>conf := conf s'\<rparr>"
    and a: "\<forall>p \<in> set traits. pair_value cfg prefix p \<noteq> VNone
                \<longrightarrow> conf s' sec (VStr (fst p)) = Some (Val (pair_value cfg prefix p))"
    and b: "\<forall>p \<in> set traits. pair_value cfg prefix p = VNone
                \<longrightarrow> conf s' sec (VStr (fst p)) = conf s sec (VStr (fst p))"
    and c: "\<forall>sec' n. sec' \<noteq> sec \<or> n \<notin> (\<lambda>p. VStr (fst p)) ` set traits
                \<longrightarrow> conf s' sec' n = conf s sec' n"
    by blast
  have e: "environ s' = environ s" "trace s' = trace s"
    by (subst e0, simp)+
  have pairs: "\<forall>(trait, cfg_key) \<in> set traits.
                 getattr s' sec trait =
                   (case configured cfg (prefix @ source_key trait cfg_key) of
                      None \<Rightarrow> getattr s sec trait
                    | Some v \<Rightarrow> Some (Val v))"
  proof (intro ballI, clarify)
    fix trait cfg_key
    assume m: "(trait, cfg_key) \<in> set traits"
    show "getattr s' sec trait =
            (case configured cfg (prefix @ source_key trait cfg_key) of
               None \<Rightarrow> getattr s sec trait
             | Some v \<Rightarrow> Some (Val v))"
    proof (cases "configured cfg (prefix @ source_key trait cfg_key)")
      case None
      then have "pair_value cfg prefix (trait, cfg_key) = VNone"
        by (simp add: pair_value_configured)
      then show ?thesis using b m None by (force simp: getattr_def)
    next
      case (Some v)
      then have nn: "v \<noteq> VNone"
        by (auto simp: configured_def split: option.splits if_splits)
      have "pair_value cfg prefix (trait, cfg_key) = v"
        using Some by (simp add: pair_value_configured)
      then show ?thesis using a m Some nn by (force simp: getattr_def)
    qed
  qed
  have perm: "\<forall>traits'. mset traits' = mset traits
                 \<longrightarrow> set_traits cfg sec prefix traits' s = (s', None)"
  proof (intro allI impI)
    fix traits'
    assume "mset traits' = mset traits"
    from set_traits_permute[OF assms this, of cfg sec prefix s]
    show "set_traits cfg sec prefix traits' s = (s', None)" by (simp only: r)
  qed
  show ?thesis using r pairs c e perm by blast
qed

theorem set_config_pairs_example:
  "distinct (map fst hub_traits)
   \<and> snd (hub_settings
            (VDict [(VStr ''hub'', VDict [(VStr ''baseUrl'', VStr ''/jh''),
                                         (VStr ''allowNamedServers'', VNone)])])
            (init_state Map.empty)) = None
   \<and> getattr (fst (hub_settings
            (VDict [(VStr ''hub'', VDict [(VStr ''baseUrl'', VStr ''/jh''),
                                         (VStr ''allowNamedServers'', VNone)])])
            (init_state Map.empty))) ''JupyterHub'' ''base_url'' = Some (Val (VStr ''/jh''))
   \<and> getattr (fst (hub_settings
            (VDict [(VStr ''hub'', VDict [(VStr ''baseUrl'', VStr ''/jh''),
                                         (VStr ''allowNamedServers'', VNone)])])
            (init_state Map.empty))) ''JupyterHub'' ''allow_named_servers'' = None"
proof -
  define cfg0 where "cfg0 = VDict [(VStr ''hub'', VDict [(VStr ''baseUrl'', VStr ''/jh''),
                                         (VStr ''allowNamedServers'', VNone)])]"
  define s0 where "s0 = init_state Map.empty"
  have d: "distinct (map fst hub_traits)" by (simp add: hub_traits_def)
  from set_config_pairs[OF d, of cfg0 "''JupyterHub''" "''hub.''" s0] obtain s' where
    r: "set_traits cfg0 ''JupyterHub'' ''hub.'' hub_traits s0 = (s', None)"
    and p: "\<forall>(trait, cfg_key) \<in> set hub_traits.
                 getattr s' ''JupyterHub'' trait =
                   (case configured cfg0 (''hub.'' @ source_key trait cfg_key) of
                      None \<Rightarrow> getattr s0 ''JupyterHub'' trait
                    | Some v \<Rightarrow> Some (Val v))"
    by blast
  have c1: "configured cfg0 (''hub.'' @ source_key ''base_url'' None) = Some (VStr ''/jh'')"
    by (simp add: configured_def find_config_def source_key_def is_lower_def upper_def cfg0_def)
  have c2: "configured cfg0 (''hub.'' @ source_key ''allow_named_servers'' None) = None"
    by (simp add: configured_def find_config_def source_key_def is_lower_def upper_def cfg0_def)
  have m1: "(''base_url'', None) \<in> set hub_traits"
    and m2: "(''allow_named_servers'', None) \<in> set hub_traits"
    by (simp_all add: hub_traits_def)
  have g1: "getattr s' ''JupyterHub'' ''base_url'' = Some (Val (VStr ''/jh''))"
    using p m1 c1 by force
  have g0: "getattr s0 ''JupyterHub'' ''allow_named_servers'' = None"
    by (simp add: s0_def init_state_def getattr_def)
  have g2: "getattr s' ''JupyterHub'' ''allow_named_servers'' = None"
    using p m2 c2 g0 by force
  show ?thesis
    using d r g1 g2 unfolding hub_settings_def cfg0_def s0_def by simp
qed

text \<open>
  C1, on the authenticator branches whose loops lack the camel-case fallback. The tree
  selects the cilogon authenticator and configures \<open>auth.cilogon.clientId\<close> and
  \<open>auth.cilogon.callbackUrl\<close>, the keys of the pairs \<open>client_id\<close> and
  \<open>oauth_callback_url\<close> of the branch's list. The branch raises a TypeError at its
  first pair, which has no key, and neither attribute is assigned, the one whose pair
  names its key included; the whole script ends in that error. The github branch, on
  the same client configuration, assigns both attributes.
\<close>

theorem keyless_pairs_unassigned:
  "configured sample_cilogon ''auth.cilogon.clientId'' = Some (VStr ''hub'')
   \<and> configured sample_cilogon ''auth.cilogon.callbackUrl''
         = Some (VStr ''https://hub.example.org/hub/oauth_callback'')
   \<and> snd (authenticator sample_world sample_cilogon (init_state sample_env)) = Some TypeError
   \<and> getattr (fst (authenticator sample_world sample_cilogon (init_state sample_env)))
         ''CILogonOAuthenticator'' ''client_id'' = None
   \<and> getattr (fst (authenticator sample_world sample_cilogon (init_state sample_env)))
         ''CILogonOAuthenticator'' ''oauth_callback_url'' = None
   \<and> snd (jupyterhub_config sample_world (start_state sample_env sample_cilogon)) = Some TypeError
   \<and> getattr (fst (jupyterhub_config sample_world (start_state sample_env sample_cilogon)))
         ''CILogonOAuthenticator'' ''oauth_callback_url'' = None
   \<and> snd (authenticator sample_world sample_github (init_state sample_env)) = None
   \<and> getattr (fst (authenticator sample_world sample_github (init_state sample_env)))
         ''GitHubOAuthenticator'' ''client_id'' = Some (Val (VStr ''hub''))
   \<and> getattr (fst (authenticator sample_world sample_github (init_state sample_env)))
         ''GitHubOAuthenticator'' ''oauth_callback_url''
         = Some (Val (VStr ''https://hub.example.org/hub/oauth_callback''))"
proof -
  have c1: "configured sample_cilogon ''auth.cilogon.clientId'' = Some (VStr ''hub'')"
    and c2: "configured sample_cilogon ''auth.cilogon.callbackUrl''
               = Some (VStr ''https://hub.example.org/hub/oauth_callback'')"
    by (simp_all add: configured_def find_config_def sample_cilogon_def oauth_client_def)
  have t: "get_config sample_cilogon ''auth.type'' VNone = VStr ''cilogon''"
    by (simp add: sample_cilogon_def tree_defs)
  have a: "authenticator sample_world sample_cilogon s =
             (s\<lparr>conf := (conf s)(''JupyterHub'' := (conf s ''JupyterHub'')
                 (VStr ''authenticator_class'' \<mapsto> Val (VStr ''oauthenticator.CILogonOAuthenticator'')))\<rparr>,
              Some TypeError)" for s
    by (simp add: authenticator_def t Let_def set_traits_keyed_def common_oauth_traits_def
          setattr_def raise_def)
  have a1: "snd (authenticator sample_world sample_cilogon (init_state sample_env)) = Some TypeError"
    and a2: "getattr (fst (authenticator sample_world sample_cilogon (init_state sample_env)))
         ''CILogonOAuthenticator'' ''client_id'' = None"
    and a3: "getattr (fst (authenticator sample_world sample_cilogon (init_state sample_env)))
         ''CILogonOAuthenticator'' ''oauth_callback_url'' = None"
    by (simp_all add: a getattr_def init_state_def)
  define s0 where "s0 = start_state sample_env sample_cilogon"
  have ts: "tree s0 = sample_cilogon" by (simp add: s0_def start_state_def)
  obtain s1 r where b: "seq (before_authenticator sample_world sample_cilogon) s0 = (s1, r)"
    by (cases "seq (before_authenticator sample_world sample_cilogon) s0") blast
  have r: "r = None"
    using b unfolding sample_cilogon_def oauth_client_def s0_def
    by (simp add: before_authenticator_defs start_state_def init_state_def sample_env_def
          sample_world_def stmt_defs tree_defs Let_def)
  have u: "getattr s1 ''CILogonOAuthenticator'' ''oauth_callback_url'' = None"
    using b unfolding sample_cilogon_def oauth_client_def s0_def
    by (auto simp add: before_authenticator_defs start_state_def init_state_def sample_env_def
          sample_world_def stmt_defs tree_defs Let_def)
  have j: "jupyterhub_config sample_world s0 =
             (s1\<lparr>conf := (conf s1)(''JupyterHub'' := (conf s1 ''JupyterHub'')
                 (VStr ''authenticator_class'' \<mapsto> Val (VStr ''oauthenticator.CILogonOAuthenticator'')))\<rparr>,
              Some TypeError)"
    by (simp add: jupyterhub_config_def ts seq_append b r a)
  have j1: "snd (jupyterhub_config sample_world s0) = Some TypeError" by (simp add: j)
  have j2: "getattr (fst (jupyterhub_config sample_world s0))
              ''CILogonOAuthenticator'' ''oauth_callback_url'' = None"
    using u by (simp add: j getattr_def)
  have g: "get_config sample_github ''auth.type'' VNone = VStr ''github''"
    by (simp add: sample_github_def tree_defs)
  have g1: "snd (authenticator sample_world sample_github (init_state sample_env)) = None"
    and g2: "getattr (fst (authenticator sample_world sample_github (init_state sample_env)))
         ''GitHubOAuthenticator'' ''client_id'' = Some (Val (VStr ''hub''))"
    and g3: "getattr (fst (authenticator sample_world sample_github (init_state sample_env)))
         ''GitHubOAuthenticator'' ''oauth_callback_url''
         = Some (Val (VStr ''https://hub.example.org/hub/oauth_callback''))"
    by (simp_all add: authenticator_def g Let_def common_oauth_traits_def source_key_def
          is_lower_def upper_def sample_github_def oauth_client_def init_state_def
          stmt_defs tree_defs)
  show ?thesis
    using c1 c2 a1 a2 a3 j1 j2 g1 g2 g3 unfolding s0_def by simp
qed

subsection \<open>An unrecognized authenticator\<close>

lemma authenticator_unhandled:
  assumes "get_config cfg ''auth.type'' VNone \<notin> VStr ` set auth_types"
  shows "authenticator w cfg s =
           (s, Some (ValueError (''Unhandled auth type: '' @ py_repr (get_config cfg ''auth.type'' VNone))))"
  using assms by (simp add: authenticator_def auth_types_def Let_def raise_def)

text \<open>
  C2 (as stated, refuted). With \<open>auth.type\<close> set to \<open>foo\<close> on the sample deployment the
  script raises the error that names the value, and by then the settings object has
  been written to: the spawner class, which was not set at the start, is set.
\<close>

theorem unhandled_auth_type_counterexample:
  "snd (jupyterhub_config sample_world
          (start_state sample_env (VDict [(VStr ''auth'', VDict [(VStr ''type'', VStr ''foo'')])])))
     = Some (ValueError (''Unhandled auth type: '' @ [CHR 0x27] @ ''foo'' @ [CHR 0x27]))
   \<and> getattr (fst (jupyterhub_config sample_world
                     (start_state sample_env
                        (VDict [(VStr ''auth'', VDict [(VStr ''type'', VStr ''foo'')])]))))
        ''JupyterHub'' ''spawner_class'' = Some (Val (VStr ''kubespawner.KubeSpawner''))
   \<and> getattr (start_state sample_env (VDict [(VStr ''auth'', VDict [(VStr ''type'', VStr ''foo'')])]))
        ''JupyterHub'' ''spawner_class'' = None"
proof -
  define cfg where "cfg = VDict [(VStr ''auth'', VDict [(VStr ''type'', VStr ''foo'')])]"
  define s0 where "s0 = start_state sample_env cfg"
  have ts: "tree s0 = cfg" by (simp add: s0_def start_state_def)
  obtain s1 r where b: "seq (before_authenticator sample_world cfg) s0 = (s1, r)"
    by (cases "seq (before_authenticator sample_world cfg) s0") blast
  have r: "r = None"
    using b unfolding cfg_def s0_def
    by (simp add: before_authenticator_defs start_state_def init_state_def sample_env_def
          sample_world_def stmt_defs tree_defs Let_def)
  have c: "getattr s1 ''JupyterHub'' ''spawner_class'' = Some (Val (VStr ''kubespawner.KubeSpawner''))"
    using b unfolding cfg_def s0_def
    by (auto simp add: before_authenticator_defs start_state_def init_state_def sample_env_def
          sample_world_def stmt_defs tree_defs Let_def)
  have t: "get_config cfg ''auth.type'' VNone = VStr ''foo''"
    by (simp add: cfg_def tree_defs)
  have a: "authenticator sample_world cfg s1 =
             (s1, Some (ValueError (''Unhandled auth type: '' @ [CHR 0x27] @ ''foo'' @ [CHR 0x27])))"
    by (simp add: authenticator_def t Let_def raise_def repr_str_def repr_char_def printable_def)
  have j: "jupyterhub_config sample_world s0 =
             (s1, Some (ValueError (''Unhandled auth type: '' @ [CHR 0x27] @ ''foo'' @ [CHR 0x27])))"
    by (simp add: jupyterhub_config_def ts seq_append b r a)
  have i: "getattr s0 ''JupyterHub'' ''spawner_class'' = None"
    by (simp add: s0_def start_state_def init_state_def getattr_def)
  show ?thesis using j c i unfolding cfg_def s0_def by simp
qed

text \<open>
  C2 (amended). For every configuration tree whose \<open>auth.type\<close> is outside the
  enumerated set, the authenticator selection raises the error whose message is
  \<open>Unhandled auth type:\<close> followed by the \<open>repr\<close> of the value, and changes nothing; and
  the whole script ends in an error: an earlier one, or this one, raised on the state
  that the statements before the selection have left. No statement after the
  selection is run.
\<close>

theorem unhandled_auth_type:
  assumes "get_config (tree s0) ''auth.type'' VNone \<notin> VStr ` set auth_types"
  shows "authenticator w (tree s0) s =
           (s, Some (ValueError (''Unhandled auth type: ''
                                 @ py_repr (get_config (tree s0) ''auth.type'' VNone))))
         \<and> jupyterhub_config w s0 =
             (case seq (before_authenticator w (tree s0)) s0 of
                (s1, None) \<Rightarrow>
                  (s1, Some (ValueError (''Unhandled auth type: ''
                                         @ py_repr (get_config (tree s0) ''auth.type'' VNone))))
              | (s1, Some e) \<Rightarrow> (s1, Some e))"
proof
  show "authenticator w (tree s0) s =
           (s, Some (ValueError (''Unhandled auth type: ''
                                 @ py_repr (get_config (tree s0) ''auth.type'' VNone))))"
    using assms by (rule authenticator_unhandled)
  show "jupyterhub_config w s0 =
             (case seq (before_authenticator w (tree s0)) s0 of
                (s1, None) \<Rightarrow>
                  (s1, Some (ValueError (''Unhandled auth type: ''
                                         @ py_repr (get_config (tree s0) ''auth.type'' VNone))))
              | (s1, Some e) \<Rightarrow> (s1, Some e))"
    by (simp add: jupyterhub_config_def seq_append authenticator_unhandled[OF assms]
          split: prod.splits option.splits)
qed

text \<open>
  Two instances: the integer 7, and the string of the letter a, a no-break space and
  the letter b, whose \<open>repr\<close> writes the no-break space as an escape.
\<close>

theorem unhandled_auth_type_witness:
  "authenticator sample_world (VDict [(VStr ''auth'', VDict [(VStr ''type'', VInt 7)])])
     (start_state sample_env (VDict [(VStr ''auth'', VDict [(VStr ''type'', VInt 7)])]))
   = (start_state sample_env (VDict [(VStr ''auth'', VDict [(VStr ''type'', VInt 7)])]),
      Some (ValueError ''Unhandled auth type: 7''))
   \<and> authenticator sample_world
       (VDict [(VStr ''auth'', VDict [(VStr ''type'', VStr [CHR ''a'', CHR 0xA0, CHR ''b''])])])
       (start_state sample_env
          (VDict [(VStr ''auth'', VDict [(VStr ''type'', VStr [CHR ''a'', CHR 0xA0, CHR ''b''])])]))
   = (start_state sample_env
        (VDict [(VStr ''auth'', VDict [(VStr ''type'', VStr [CHR ''a'', CHR 0xA0, CHR ''b''])])]),
      Some (ValueError (''Unhandled auth type: ''
                        @ [CHR 0x27, CHR ''a'', CHR 0x5C, CHR ''x'', CHR ''a'', CHR ''0'',
                           CHR ''b'', CHR 0x27])))"
proof -
  define cfg where "cfg = VDict [(VStr ''auth'', VDict [(VStr ''type'', VInt 7)])]"
  define cfg' where
    "cfg' = VDict [(VStr ''auth'', VDict [(VStr ''type'', VStr [CHR ''a'', CHR 0xA0, CHR ''b''])])]"
  define s0 where "s0 = start_state sample_env cfg"
  define s0' where "s0' = start_state sample_env cfg'"
  have ts: "tree s0 = cfg" "tree s0' = cfg'" by (simp_all add: s0_def s0'_def start_state_def)
  have t: "get_config cfg ''auth.type'' VNone = VInt 7"
    by (simp add: cfg_def tree_defs)
  have t': "get_config cfg' ''auth.type'' VNone = VStr [CHR ''a'', CHR 0xA0, CHR ''b'']"
    by (simp add: cfg'_def tree_defs)
  have h: "get_config (tree s0) ''auth.type'' VNone \<notin> VStr ` set auth_types"
    unfolding ts t by auto
  have h': "get_config (tree s0') ''auth.type'' VNone \<notin> VStr ` set auth_types"
    unfolding ts t' by (auto simp: auth_types_def)
  from unhandled_auth_type[OF h, of sample_world s0]
  have e: "authenticator sample_world cfg s0 = (s0, Some (ValueError ''Unhandled auth type: 7''))"
    unfolding ts t by (simp add: dec_int_def digit_char_def)
  from unhandled_auth_type[OF h', of sample_world s0']
  have e': "authenticator sample_world cfg' s0' =
        (s0', Some (ValueError (''Unhandled auth type: ''
                        @ [CHR 0x27, CHR ''a'', CHR 0x5C, CHR ''x'', CHR ''a'', CHR ''0'',
                           CHR ''b'', CHR 0x27])))"
    unfolding ts t'
    by (simp add: repr_str_def repr_char_def printable_def digit_char_def Let_def)
  show ?thesis using e e' unfolding cfg_def cfg'_def s0_def s0'_def by simp
qed

subsection \<open>The identity the hook gives the spawner\<close>




subsection \<open>The worked example of the hook\<close>

lemma mset_two:
  assumes "mset g = mset [a, b]"
  shows "g = [a, b] \<or> g = [b, a]"
proof -
  have "length g = 2" using assms by (metis length_Cons list.size(3) size_mset numeral_2_eq_2)
  then obtain x y where g: "g = [x, y]"
    by (cases g; cases "tl g") auto
  then have "{#x, y#} = {#a, b#}" using assms by simp
  then show ?thesis unfolding g by (auto simp: add_eq_conv_ex)
qed

text \<open>
  C4 (as stated, refuted). The user is not an admin and the cached profile is the one
  of the claim, with \<open>advanced\<close> false; the spawner environment holds GRANT_SUDO before
  the hook runs. The hook completes, and the environment still has the GRANT_SUDO key.
\<close>

theorem spawner_config_example_counterexample:
  "admin (user sample_spawner_sudo) = False
   \<and> auth_state (user sample_spawner_sudo) = VDict [(VStr ''profile'', sample_profile)]
   \<and> py_getitem sample_profile ''advanced'' = Inr (VBool False)
   \<and> (case spawner_config sample_hook_world sample_spawner_sudo of
         Inl e \<Rightarrow> False
       | Inr sp' \<Rightarrow> environment sp' ''GRANT_SUDO'' = Some (VStr ''yes''))"
  by (simp add: sample_spawner_sudo_def sample_spawner_def sample_profile_def
        sample_hook_world_def spawner_config_def ensure_profile_def apply_profile_def
        profile_field_def grant_sudo_def group_build_def group_member_def join_strs_def
        set_env_def bindE_def py_str_def dec_int_def digit_char_def Let_def)

text \<open>
  C4 (amended). For a non-admin user whose cached profile has uid 1000, gid 2000,
  group_membership [2000, 3000], group_map {2000: g1, 3000: g2} and advanced false,
  the entries of the profile and of its group_map in any order: the hook completes and
  writes to the spawner environment exactly NB_USER, NB_UID = 1000, NB_GID = 2000,
  GIT_SSH_HOST, NOTEBOOK_DIR, GROUP_BUILD and GROUP_MEMBER = "2000 3000". GROUP_BUILD is
  "g1:2000 g2:3000" when the group_map lists 2000 first and "g2:3000 g1:2000" when it
  lists 3000 first. The hook does not write GRANT_SUDO: the key is in the environment
  after the hook exactly when it was there before, with the value it had.
\<close>

theorem spawner_config_example:
  assumes "admin (user sp) = False"
    and "auth_state (user sp) = VDict d"
    and "map_of d (VStr ''profile'') = Some (VDict p)"
    and "map_of p (VStr ''uid'') = Some (VInt 1000)"
    and "map_of p (VStr ''gid'') = Some (VInt 2000)"
    and "map_of p (VStr ''group_membership'') = Some (VList [VInt 2000, VInt 3000])"
    and "map_of p (VStr ''group_map'') = Some (VDict g)"
    and "mset g = mset [(VInt 2000, VStr ''g1''), (VInt 3000, VStr ''g2'')]"
    and "map_of p (VStr ''advanced'') = Some (VBool False)"
  shows "\<exists>sp'. spawner_config h sp = Inr sp'
           \<and> environment sp' =
               (environment sp)
                 (''NB_USER'' \<mapsto> VStr (name (user sp)),
                  ''NB_UID'' \<mapsto> VStr ''1000'',
                  ''NB_GID'' \<mapsto> VStr ''2000'',
                  ''GIT_SSH_HOST'' \<mapsto> spawner_git_server h,
                  ''NOTEBOOK_DIR'' \<mapsto> VStr (''/home/'' @ name (user sp) @ ''/jupyter''),
                  ''GROUP_BUILD'' \<mapsto>
                     VStr (if g = [(VInt 2000, VStr ''g1''), (VInt 3000, VStr ''g2'')]
                           then ''g1:2000 g2:3000'' else ''g2:3000 g1:2000''),
                  ''GROUP_MEMBER'' \<mapsto> VStr ''2000 3000'')
           \<and> environment sp' ''GRANT_SUDO'' = environment sp ''GRANT_SUDO''"
proof -
  have k: "VStr ''profile'' \<in> fst ` set d"
    using assms(3) by (metis map_of_eq_None_iff option.distinct(1))
  have e: "ensure_profile h sp = Inr sp"
    using assms(2) k by (simp add: ensure_profile_def bindE_def Let_def)
  have f: "profile_field sp' kk = py_getitem (VDict p) kk" if "user sp' = user sp" for sp' kk
    using that assms(2,3) by (simp add: profile_field_def bindE_def)
  from mset_two[OF assms(8)]
  consider "g = [(VInt 2000, VStr ''g1''), (VInt 3000, VStr ''g2'')]"
    | "g = [(VInt 3000, VStr ''g2''), (VInt 2000, VStr ''g1'')]"
    by blast
  then show ?thesis
  proof cases
    case 1
    show ?thesis
      using assms(1)
      by (simp add: spawner_config_def e bindE_def apply_profile_def Let_def f set_env_def
            grant_sudo_def assms(2-7,9) 1 group_build_def group_member_def
            join_strs_def py_str_def dec_int_def digit_char_def fun_upd_twist)
  next
    case 2
    show ?thesis
      using assms(1)
      by (simp add: spawner_config_def e bindE_def apply_profile_def Let_def f set_env_def
            grant_sudo_def assms(2-7,9) 2 group_build_def group_member_def
            join_strs_def py_str_def dec_int_def digit_char_def fun_upd_twist)
  qed
qed

theorem spawner_config_example_witness:
  "admin (user sample_spawner) = False
   \<and> (case spawner_config sample_hook_world sample_spawner of
         Inl e \<Rightarrow> False
       | Inr sp' \<Rightarrow>
           environment sp' ''NB_UID'' = Some (VStr ''1000'')
           \<and> environment sp' ''NB_GID'' = Some (VStr ''2000'')
           \<and> environment sp' ''GRANT_SUDO'' = None
           \<and> environment sp' ''GROUP_MEMBER'' = Some (VStr ''2000 3000'')
           \<and> environment sp' ''GROUP_BUILD'' = Some (VStr ''g1:2000 g2:3000''))
   \<and> (case spawner_config sample_hook_world sample_spawner_reordered of
         Inl e \<Rightarrow> False
       | Inr sp' \<Rightarrow>
           environment sp' ''NB_UID'' = Some (VStr ''1000'')
           \<and> environment sp' ''GRANT_SUDO'' = None
           \<and> environment sp' ''GROUP_BUILD'' = Some (VStr ''g2:3000 g1:2000''))"
proof -
  have a: "admin (user sample_spawner) = False"
    and s: "auth_state (user sample_spawner) = VDict [(VStr ''profile'', sample_profile)]"
    and g: "environment sample_spawner ''GRANT_SUDO'' = None"
    by (simp_all add: sample_spawner_def)
  define p where "p = [(VStr ''uid'', VInt 1000),
            (VStr ''gid'', VInt 2000),
            (VStr ''group_membership'', VList [VInt 2000, VInt 3000]),
            (VStr ''group_map'', VDict [(VInt 2000, VStr ''g1''), (VInt 3000, VStr ''g2'')]),
            (VStr ''advanced'', VBool False)]"
  have m: "map_of [(VStr ''profile'', sample_profile)] (VStr ''profile'') = Some (VDict p)"
    by (simp add: sample_profile_def p_def)
  have p1: "map_of p (VStr ''uid'') = Some (VInt 1000)"
    and p2: "map_of p (VStr ''gid'') = Some (VInt 2000)"
    and p3: "map_of p (VStr ''group_membership'') = Some (VList [VInt 2000, VInt 3000])"
    and p4: "map_of p (VStr ''group_map'')
               = Some (VDict [(VInt 2000, VStr ''g1''), (VInt 3000, VStr ''g2'')])"
    and p5: "map_of p (VStr ''advanced'') = Some (VBool False)"
    by (simp_all add: p_def)
  from spawner_config_example[OF a s m p1 p2 p3 p4 _ p5, of sample_hook_world] obtain sp' where
    r: "spawner_config sample_hook_world sample_spawner = Inr sp'"
    and env: "environment sp' =
               (environment sample_spawner)
                 (''NB_USER'' \<mapsto> VStr (name (user sample_spawner)),
                  ''NB_UID'' \<mapsto> VStr ''1000'',
                  ''NB_GID'' \<mapsto> VStr ''2000'',
                  ''GIT_SSH_HOST'' \<mapsto> spawner_git_server sample_hook_world,
                  ''NOTEBOOK_DIR'' \<mapsto> VStr (''/home/'' @ name (user sample_spawner) @ ''/jupyter''),
                  ''GROUP_BUILD'' \<mapsto> VStr ''g1:2000 g2:3000'',
                  ''GROUP_MEMBER'' \<mapsto> VStr ''2000 3000'')"
    and sudo: "environment sp' ''GRANT_SUDO'' = environment sample_spawner ''GRANT_SUDO''"
    by auto
  have a': "admin (user sample_spawner_reordered) = False"
    and g': "environment sample_spawner_reordered ''GRANT_SUDO'' = None"
    by (simp_all add: sample_spawner_reordered_def sample_spawner_def)
  define q where "q = [(VStr ''advanced'', VBool False),
                          (VStr ''group_map'', VDict [(VInt 3000, VStr ''g2''), (VInt 2000, VStr ''g1'')]),
                          (VStr ''group_membership'', VList [VInt 2000, VInt 3000]),
                          (VStr ''gid'', VInt 2000),
                          (VStr ''uid'', VInt 1000)]"
  have s': "auth_state (user sample_spawner_reordered) = VDict [(VStr ''profile'', VDict q)]"
    by (simp add: sample_spawner_reordered_def q_def)
  have m': "map_of [(VStr ''profile'', VDict q)] (VStr ''profile'') = Some (VDict q)"
    by simp
  have q1: "map_of q (VStr ''uid'') = Some (VInt 1000)"
    and q2: "map_of q (VStr ''gid'') = Some (VInt 2000)"
    and q3: "map_of q (VStr ''group_membership'') = Some (VList [VInt 2000, VInt 3000])"
    and q4: "map_of q (VStr ''group_map'')
               = Some (VDict [(VInt 3000, VStr ''g2''), (VInt 2000, VStr ''g1'')])"
    and q5: "map_of q (VStr ''advanced'') = Some (VBool False)"
    by (simp_all add: q_def)
  have q6: "mset [(VInt 3000, VStr ''g2''), (VInt 2000, VStr ''g1'')]
              = mset [(VInt 2000, VStr ''g1''), (VInt 3000, VStr ''g2'')]"
    by simp
  from spawner_config_example[OF a' s' m' q1 q2 q3 q4 q6 q5, of sample_hook_world] obtain sp'' where
    r': "spawner_config sample_hook_world sample_spawner_reordered = Inr sp''"
    and env': "environment sp'' =
               (environment sample_spawner_reordered)
                 (''NB_USER'' \<mapsto> VStr (name (user sample_spawner_reordered)),
                  ''NB_UID'' \<mapsto> VStr ''1000'',
                  ''NB_GID'' \<mapsto> VStr ''2000'',
                  ''GIT_SSH_HOST'' \<mapsto> spawner_git_server sample_hook_world,
                  ''NOTEBOOK_DIR'' \<mapsto>
                     VStr (''/home/'' @ name (user sample_spawner_reordered) @ ''/jupyter''),
                  ''GROUP_BUILD'' \<mapsto> VStr ''g2:3000 g1:2000'',
                  ''GROUP_MEMBER'' \<mapsto> VStr ''2000 3000'')"
    and sudo': "environment sp'' ''GRANT_SUDO'' = environment sample_spawner_reordered ''GRANT_SUDO''"
    by auto
  show ?thesis using a r sudo g r' sudo' g' by (simp add: env env')
qed

subsection \<open>The idle culler\<close>

lemma cull_users_in_cmd:
  "''--cull-users'' \<in> set (cull_cmd cfg url) \<longleftrightarrow> truthy (get_config cfg ''cull.users'' VNone)"
  by (simp add: cull_cmd_def Let_def)

lemma admin_users_in_scopes:
  "''admin:users'' \<in> set (cull_scopes cfg) \<longleftrightarrow> truthy (get_config cfg ''cull.users'' VNone)"
  by (simp add: cull_scopes_def)

text \<open>
  C5. With \<open>cull.enabled\<close> set, the culler block appends exactly one service
  descriptor to the hub's services and exactly one role descriptor to its load_roles;
  the service's command contains \<open>--cull-users\<close> if and only if \<open>cull.users\<close> is set,
  and the role's scopes contain \<open>admin:users\<close> if and only if the command contains
  \<open>--cull-users\<close>.
\<close>

theorem idle_culler_descriptors:
  assumes "truthy (get_config cfg ''cull.enabled'' (VBool False))"
    and "getattr s ''JupyterHub'' ''services'' = Some (Val (VList services))"
    and "getattr s ''JupyterHub'' ''load_roles'' = Some (Val (VList roles))"
    and "idle_culler w cfg s = (s', None)"
  shows "\<exists>url cmd scopes.
           getattr s' ''JupyterHub'' ''services''
             = Some (Val (VList (services @ [cull_service cfg url])))
         \<and> getattr s' ''JupyterHub'' ''load_roles''
             = Some (Val (VList (roles @ [jupyterhub_idle_culler_role cfg])))
         \<and> py_getitem (cull_service cfg url) ''command'' = Inr (VList (map VStr cmd))
         \<and> py_getitem (jupyterhub_idle_culler_role cfg) ''scopes'' = Inr (VList (map VStr scopes))
         \<and> (''--cull-users'' \<in> set cmd \<longleftrightarrow> truthy (get_config cfg ''cull.users'' VNone))
         \<and> (''admin:users'' \<in> set scopes \<longleftrightarrow> ''--cull-users'' \<in> set cmd)"
proof -
  define base where "base = (case getattr s ''JupyterHub'' ''base_url'' of
                              None \<Rightarrow> Val (VStr ''/'') | Some v \<Rightarrow> v)"
  from assms(1,4) obtain url where u: "url_path_join w base ''hub/api'' = Inr url"
    by (cases "url_path_join w base ''hub/api''")
       (auto simp: idle_culler_def Let_def eval_def base_def)
  have s': "s' = fst (seq [attr_append ''JupyterHub'' ''services'' (cull_service cfg url),
                          attr_append ''JupyterHub'' ''load_roles'' (jupyterhub_idle_culler_role cfg)] s)"
    using assms(1,4) u by (simp add: idle_culler_def Let_def eval_def base_def)
  have g1: "getattr s' ''JupyterHub'' ''services''
             = Some (Val (VList (services @ [cull_service cfg url])))"
    using assms(2,3) unfolding s'
    by (simp add: attr_append_def setattr_def getattr_def)
  have g2: "getattr s' ''JupyterHub'' ''load_roles''
             = Some (Val (VList (roles @ [jupyterhub_idle_culler_role cfg])))"
    using assms(2,3) unfolding s'
    by (simp add: attr_append_def setattr_def getattr_def)
  have c: "py_getitem (cull_service cfg url) ''command'' = Inr (VList (map VStr (cull_cmd cfg url)))"
    by (simp add: cull_service_def)
  have r: "py_getitem (jupyterhub_idle_culler_role cfg) ''scopes''
             = Inr (VList (map VStr (cull_scopes cfg)))"
    by (simp add: jupyterhub_idle_culler_role_def)
  show ?thesis
    using g1 g2 c r cull_users_in_cmd[of cfg url] admin_users_in_scopes[of cfg] by blast
qed

theorem idle_culler_descriptors_witness:
  "truthy (get_config (VDict [(VStr ''cull'', VDict [(VStr ''enabled'', VBool True),
                                                     (VStr ''users'', VBool True)])])
             ''cull.enabled'' (VBool False))
   \<and> snd (seq [services_init,
                idle_culler sample_world
                  (VDict [(VStr ''cull'', VDict [(VStr ''enabled'', VBool True),
                                                 (VStr ''users'', VBool True)])])]
           (init_state sample_env)) = None
   \<and> getattr (fst (seq [services_init,
                idle_culler sample_world
                  (VDict [(VStr ''cull'', VDict [(VStr ''enabled'', VBool True),
                                                 (VStr ''users'', VBool True)])])]
           (init_state sample_env))) ''JupyterHub'' ''services''
       = Some (Val (VList [VDict [
           (VStr ''name'', VStr ''jupyterhub-idle-culler''),
           (VStr ''command'',
            VList (map VStr [''python3'', ''-m'', ''jupyterhub_idle_culler'',
                             ''--url=http://localhost:8081/hub/api'', ''--cull-users'',
                             ''--cull-admin-users=false'']))]]))
   \<and> getattr (fst (seq [services_init,
                idle_culler sample_world
                  (VDict [(VStr ''cull'', VDict [(VStr ''enabled'', VBool True),
                                                 (VStr ''users'', VBool True)])])]
           (init_state sample_env))) ''JupyterHub'' ''load_roles''
       = Some (Val (VList [VDict [
           (VStr ''name'', VStr ''jupyterhub-idle-culler''),
           (VStr ''scopes'',
            VList (map VStr [''list:users'', ''read:users:activity'', ''read:servers'',
                             ''delete:servers'', ''admin:users''])),
           (VStr ''services'', VList [VStr ''jupyterhub-idle-culler''])]]))"
proof -
  define cfg where "cfg = VDict [(VStr ''cull'', VDict [(VStr ''enabled'', VBool True),
                                                        (VStr ''users'', VBool True)])]"
  define s where "s = fst (services_init (init_state sample_env))"
  obtain s' r where run: "idle_culler sample_world cfg s = (s', r)"
    by (cases "idle_culler sample_world cfg s") blast
  have h1: "truthy (get_config cfg ''cull.enabled'' (VBool False))"
    by (simp add: cfg_def tree_defs)
  have h2: "getattr s ''JupyterHub'' ''services'' = Some (Val (VList []))"
    and h3: "getattr s ''JupyterHub'' ''load_roles'' = Some (Val (VList []))"
    by (simp_all add: s_def services_init_def stmt_defs init_state_def)
  have b: "getattr s ''JupyterHub'' ''base_url'' = None"
    by (simp add: s_def services_init_def stmt_defs init_state_def)
  have u: "url_path_join sample_world (Val (VStr ''/'')) ''hub/api'' = Inr ''/hub/api''"
    by (simp add: sample_world_def)
  have r: "r = None"
    using run h1 b u h2 h3
    by (auto simp: idle_culler_def Let_def eval_def attr_append_def setattr_def getattr_def)
  from idle_culler_descriptors[OF h1 h2 h3 run[unfolded r]] obtain url where
    g1: "getattr s' ''JupyterHub'' ''services'' = Some (Val (VList ([] @ [cull_service cfg url])))"
    and g2: "getattr s' ''JupyterHub'' ''load_roles''
              = Some (Val (VList ([] @ [jupyterhub_idle_culler_role cfg])))"
    by blast
  have s': "getattr s' ''JupyterHub'' ''services'' = Some (Val (VList [cull_service cfg ''/hub/api'']))"
    using run h1 b u h2 h3
    by (auto simp: idle_culler_def Let_def eval_def attr_append_def setattr_def getattr_def)
  have sq: "seq [services_init, idle_culler sample_world cfg] (init_state sample_env) = (s', None)"
    using run r by (simp add: s_def services_init_def setattr_def split: prod.splits)
  have c: "cull_service cfg ''/hub/api'' = VDict [
           (VStr ''name'', VStr ''jupyterhub-idle-culler''),
           (VStr ''command'',
            VList (map VStr [''python3'', ''-m'', ''jupyterhub_idle_culler'',
                             ''--url=http://localhost:8081/hub/api'', ''--cull-users'',
                             ''--cull-admin-users=false'']))]"
    by (simp add: cull_service_def cull_cmd_def cfg_def tree_defs Let_def)
  have ro: "jupyterhub_idle_culler_role cfg = VDict [
           (VStr ''name'', VStr ''jupyterhub-idle-culler''),
           (VStr ''scopes'',
            VList (map VStr [''list:users'', ''read:users:activity'', ''read:servers'',
                             ''delete:servers'', ''admin:users''])),
           (VStr ''services'', VList [VStr ''jupyterhub-idle-culler''])]"
    by (simp add: jupyterhub_idle_culler_role_def cull_scopes_def cfg_def tree_defs)
  show ?thesis
    using h1 sq s' g2 unfolding c ro unfolding cfg_def by simp
qed

subsection \<open>Node-purpose affinity\<close>




subsection \<open>Assignments that may be null\<close>

text \<open>
  C9. Two attributes are assigned even a null value. The spawner's
  \<open>allow_privilege_escalation\<close> is always assigned what \<open>get_config\<close> returns, which is
  None when \<open>singleuser.allowPrivilegeEscalation\<close> is absent or null. \<open>Spawner.cmd\<close> is
  assigned whenever the key \<open>singleuser.cmd\<close> is present, also when its value is null,
  and no statement is run for it when the key is absent.
\<close>

theorem null_assignments:
  "snd (allow_privilege_escalation cfg s) = None
   \<and> getattr (fst (allow_privilege_escalation cfg s)) ''KubeSpawner'' ''allow_privilege_escalation''
       = Some (Val (case find_config cfg ''singleuser.allowPrivilegeEscalation'' of
                      None \<Rightarrow> VNone
                    | Some v \<Rightarrow> v))
   \<and> (configured cfg ''singleuser.allowPrivilegeEscalation'' = None
       \<longrightarrow> getattr (fst (allow_privilege_escalation cfg s))
             ''KubeSpawner'' ''allow_privilege_escalation'' = Some (Val VNone))
   \<and> (\<forall>v. find_config cfg ''singleuser.cmd'' = Some v
       \<longrightarrow> snd (specified_cmd cfg s) = None
           \<and> getattr (fst (specified_cmd cfg s)) ''Spawner'' ''cmd'' = Some (Val v))
   \<and> (find_config cfg ''singleuser.cmd'' = None \<longrightarrow> specified_cmd cfg s = (s, None))"
  by (auto simp: allow_privilege_escalation_def specified_cmd_def setattr_def getattr_def
        skip_def get_config_def configured_def split: option.splits if_splits)

theorem null_assignments_witness:
  "find_config (VDict [(VStr ''singleuser'', VDict [(VStr ''cmd'', VNone)])]) ''singleuser.cmd''
     = Some VNone
   \<and> getattr (fst (specified_cmd (VDict [(VStr ''singleuser'', VDict [(VStr ''cmd'', VNone)])])
                    (init_state sample_env))) ''Spawner'' ''cmd'' = Some (Val VNone)
   \<and> getattr (fst (allow_privilege_escalation
                     (VDict [(VStr ''singleuser'', VDict [(VStr ''cmd'', VNone)])])
                     (init_state sample_env))) ''KubeSpawner'' ''allow_privilege_escalation''
       = Some (Val VNone)
   \<and> find_config (VDict []) ''singleuser.cmd'' = None
   \<and> specified_cmd (VDict []) (init_state sample_env) = (init_state sample_env, None)"
proof -
  define cfg where "cfg = VDict [(VStr ''singleuser'', VDict [(VStr ''cmd'', VNone)])]"
  have f: "find_config cfg ''singleuser.cmd'' = Some VNone"
    by (simp add: cfg_def find_config_def)
  have a: "configured cfg ''singleuser.allowPrivilegeEscalation'' = None"
    by (simp add: cfg_def find_config_def configured_def)
  have n: "find_config (VDict []) ''singleuser.cmd'' = None"
    by (simp add: find_config_def)
  from null_assignments[of cfg "init_state sample_env"] f a
  have 1: "getattr (fst (specified_cmd cfg (init_state sample_env))) ''Spawner'' ''cmd''
             = Some (Val VNone)"
    and 2: "getattr (fst (allow_privilege_escalation cfg (init_state sample_env)))
              ''KubeSpawner'' ''allow_privilege_escalation'' = Some (Val VNone)"
    by blast+
  from null_assignments[of "VDict []" "init_state sample_env"] n
  have 3: "specified_cmd (VDict []) (init_state sample_env) = (init_state sample_env, None)"
    by blast
  show ?thesis using f n 1 2 3 unfolding cfg_def by simp
qed

subsection \<open>Secrets and \<open>hub.config\<close>\<close>

lemma fold_update_other:
  "k \<notin> fst ` set items \<Longrightarrow> fold (\<lambda>(k, v) m. m(k \<mapsto> g v)) items m k = m k"
  by (induction items arbitrary: m) auto

lemma fold_update_in:
  "distinct (map fst items) \<Longrightarrow> (k, v) \<in> set items
     \<Longrightarrow> fold (\<lambda>(k, v) m. m(k \<mapsto> g v)) items m k = Some (g v)"
proof (induction items arbitrary: m)
  case Nil
  then show ?case by simp
next
  case (Cons p ps)
  show ?case
  proof (cases "(k, v) = p")
    case True
    from Cons.prems(1) have "fst p \<notin> set (map fst ps)" by simp
    then have "k \<notin> fst ` set ps" using True unfolding set_map by (metis fst_conv)
    then have "fold (\<lambda>(k, v) m. m(k \<mapsto> g v)) ps (m(k \<mapsto> g v)) k = (m(k \<mapsto> g v)) k"
      by (rule fold_update_other)
    then have "fold (\<lambda>(k, v) m. m(k \<mapsto> g v)) ps (m(k \<mapsto> g v)) k = Some (g v)"
      by simp
    then show ?thesis using True[symmetric] by (simp del: fun_upd_apply)
  next
    case False
    then have "(k, v) \<in> set ps" using Cons.prems(2) by simp
    then show ?thesis using Cons.IH Cons.prems(1) by (cases p) simp
  qed
qed

lemma map_of_dict_set: "map_of (dict_set k v d) = (map_of d)(k \<mapsto> v)"
  by (induction d) (auto simp: fun_eq_iff)

lemma map_of_fold_dict_set:
  "map_of (fold (\<lambda>(k, v) d'. dict_set k v d') items d)
     = fold (\<lambda>(k, v) m. m(k \<mapsto> v)) items (map_of d)"
  by (induction items arbitrary: d) (auto simp: map_of_dict_set)

lemma pops_dict:
  "pops ks (VDict d) = Inr (VDict (filter (\<lambda>p. fst p \<notin> VStr ` set ks) d))"
proof (induction ks arbitrary: d)
  case Nil
  then show ?case by simp
next
  case (Cons k ks)
  have "filter (\<lambda>p. fst p \<notin> VStr ` set ks) (filter (\<lambda>p. fst p \<noteq> VStr k) d)
        = filter (\<lambda>p. fst p \<notin> VStr ` set (k # ks)) d"
    by (induction d) auto
  then show ?case using Cons.IH by simp
qed

lemma pops_nondict:
  assumes "pops ks c = Inr c'" and "ks \<noteq> []"
  shows "\<exists>d. c = VDict d"
  using assms by (cases ks; cases c) (simp_all split: sum.splits)

text \<open>What one round of the \<open>hub.config\<close> loop does when it completes.\<close>

lemma hub_config_app_run:
  assumes "hub_config_app (app, c) t = (t', None)"
  shows "\<exists>n c'. app = VStr n \<and> pops (stripped_keys app) c = Inr c'
           \<and> (if is_section_key n
               then (\<exists>items. update_pairs c' = (items, None)
                      \<and> t' = t\<lparr>conf := (conf t)
                             (n := fold (\<lambda>(k, v) m. m(k \<mapsto> Val v)) items (conf t n))\<rparr>)
               else (\<exists>u'. lazy_update (case lazy_values t n of
                                          Some u \<Rightarrow> u
                                        | None \<Rightarrow> (case c' of VDict d \<Rightarrow> UDict [] | _ \<Rightarrow> USet {})) c'
                             = (u', None)
                      \<and> t' = t\<lparr>lazy_values := (lazy_values t)(n \<mapsto> u')\<rparr>))"
proof -
  from assms obtain c' where p: "pops (stripped_keys app) c = Inr c'"
    by (cases "pops (stripped_keys app) c") (auto simp: hub_config_app_def eval_def)
  have u: "top_update app c' t = (t', None)"
    using assms p by (simp add: hub_config_app_def eval_def)
  then obtain tp where tp: "top_of app = Inr tp"
    by (cases "top_of app") (auto simp: top_update_def eval_def)
  then obtain n where a: "app = VStr n"
    by (cases app) (auto simp: top_of_def split: if_splits)
  show ?thesis
  proof (cases "is_section_key n")
    case True
    then have "section_update n c' t = (t', None)"
      using u a by (simp add: top_update_def eval_def top_of_def)
    then have "\<exists>items. update_pairs c' = (items, None)
                      \<and> t' = t\<lparr>conf := (conf t)
                             (n := fold (\<lambda>(k, v) m. m(k \<mapsto> Val v)) items (conf t n))\<rparr>"
      by (cases "update_pairs c'") (auto simp: section_update_def)
    then show ?thesis using a p True by auto
  next
    case False
    then have "lazy_value_update n c' t = (t', None)"
      using u a by (auto simp: top_update_def eval_def top_of_def split: if_splits)
    then have "\<exists>u'. lazy_update (case lazy_values t n of
                                          Some u \<Rightarrow> u
                                        | None \<Rightarrow> (case c' of VDict d \<Rightarrow> UDict [] | _ \<Rightarrow> USet {})) c'
                             = (u', None)
                      \<and> t' = t\<lparr>lazy_values := (lazy_values t)(n \<mapsto> u')\<rparr>"
      by (auto simp: lazy_value_update_def Let_def split: prod.splits)
    then show ?thesis using a p False by auto
  qed
qed

lemma seq_map_local:
  assumes step: "\<forall>x t t'. f x t = (t', None) \<longrightarrow>
                   P x (view t (key x)) (view t' (key x))
                   \<and> (\<forall>m. m \<noteq> key x \<longrightarrow> view t' m = view t m)"
    and d: "distinct (map key xs)"
    and run: "seq (map f xs) t = (t', None)"
  shows "(\<forall>x \<in> set xs. P x (view t (key x)) (view t' (key x)))
         \<and> (\<forall>m. m \<notin> key ` set xs \<longrightarrow> view t' m = view t m)"
  using d run
proof (induction xs arbitrary: t)
  case Nil
  then show ?case by simp
next
  case (Cons x xs)
  obtain t1 r1 where s1: "f x t = (t1, r1)" by (cases "f x t")
  have r1: "r1 = None" using Cons.prems(2) s1 by (cases r1) simp_all
  have rest: "seq (map f xs) t1 = (t', None)" using Cons.prems(2) s1 r1 by simp
  have dx: "distinct (map key xs)" and nx: "key x \<notin> key ` set xs" using Cons.prems(1) by auto
  note st = step[rule_format, OF s1[unfolded r1]]
  have here: "P x (view t (key x)) (view t1 (key x))" by (rule st[THEN conjunct1])
  have frame1: "\<forall>m. m \<noteq> key x \<longrightarrow> view t1 m = view t m" by (rule st[THEN conjunct2])
  note ih = Cons.IH[OF dx rest]
  have later: "\<forall>y \<in> set xs. P y (view t1 (key y)) (view t' (key y))" by (rule ih[THEN conjunct1])
  have frame2: "\<forall>m. m \<notin> key ` set xs \<longrightarrow> view t' m = view t1 m" by (rule ih[THEN conjunct2])
  have a: "P x (view t (key x)) (view t' (key x))"
    using here frame2 nx by simp
  have b: "P y (view t (key y)) (view t' (key y))" if "y \<in> set xs" for y
  proof -
    have "key y \<noteq> key x" using that nx by (metis image_eqI)
    then have e: "view t1 (key y) = view t (key y)" using frame1 by simp
    have "P y (view t1 (key y)) (view t' (key y))" using later that by blast
    then show ?thesis by (simp only: e)
  qed
  have c: "view t' m = view t m" if "m \<notin> key ` set (x # xs)" for m
  proof -
    have "m \<noteq> key x" "m \<notin> key ` set xs" using that by auto
    then show ?thesis using frame1 frame2 by simp
  qed
  show ?case using a b c by auto
qed

lemma hub_config_apps_strings:
  assumes "seq (map hub_config_app apps) t = (t', None)"
  shows "\<forall>x \<in> set apps. \<exists>n. fst x = VStr n"
  using assms
proof (induction apps arbitrary: t)
  case Nil
  then show ?case by simp
next
  case (Cons x xs)
  obtain app c where x: "x = (app, c)" by (cases x)
  obtain t1 r1 where s1: "hub_config_app (app, c) t = (t1, r1)"
    by (cases "hub_config_app (app, c) t")
  have r1: "r1 = None" using Cons.prems s1 x by (cases r1) simp_all
  have rest: "seq (map hub_config_app xs) t1 = (t', None)" using Cons.prems s1 r1 x by simp
  from hub_config_app_run[OF s1[unfolded r1]] obtain n where "app = VStr n" by blast
  then show ?case using Cons.IH[OF rest] x by simp
qed

lemma hub_config_app_step:
  "\<forall>x t t'. hub_config_app x t = (t', None) \<longrightarrow>
         ((\<forall>k \<in> set (stripped_keys (fst x)).
             fst (conf t' (name_of (fst x)), lazy_values t' (name_of (fst x))) (VStr k)
             = fst (conf t (name_of (fst x)), lazy_values t (name_of (fst x))) (VStr k))
          \<and> (\<forall>d k v. snd x = VDict d \<and> distinct (map fst d) \<and> (k, v) \<in> set d
                  \<and> k \<notin> VStr ` set (stripped_keys (fst x))
               \<longrightarrow> (if is_section_key (name_of (fst x))
                    then fst (conf t' (name_of (fst x)), lazy_values t' (name_of (fst x))) k
                           = Some (Val v)
                    else (\<forall>xs. snd (conf t (name_of (fst x)), lazy_values t (name_of (fst x)))
                                 \<noteq> Some (USet xs))
                         \<longrightarrow> (\<exists>u. snd (conf t' (name_of (fst x)), lazy_values t' (name_of (fst x)))
                                      = Some (UDict u) \<and> map_of u k = Some v))))
         \<and> (\<forall>m. m \<noteq> name_of (fst x)
               \<longrightarrow> (conf t' m, lazy_values t' m) = (conf t m, lazy_values t m))"
  (is "\<forall>x t t'. _ \<longrightarrow> ?C x t t'")
proof (intro allI impI)
  fix x t t'
  assume run: "hub_config_app x t = (t', None)"
  obtain app c where x: "x = (app, c)" by (cases x)
  from hub_config_app_run[OF run[unfolded x]] obtain n c' where
    a: "app = VStr n" and p: "pops (stripped_keys app) c = Inr c'"
    and r: "if is_section_key n
               then (\<exists>items. update_pairs c' = (items, None)
                      \<and> t' = t\<lparr>conf := (conf t)
                             (n := fold (\<lambda>(k, v) m. m(k \<mapsto> Val v)) items (conf t n))\<rparr>)
               else (\<exists>u'. lazy_update (case lazy_values t n of
                                          Some u \<Rightarrow> u
                                        | None \<Rightarrow> (case c' of VDict d \<Rightarrow> UDict [] | _ \<Rightarrow> USet {})) c'
                             = (u', None)
                      \<and> t' = t\<lparr>lazy_values := (lazy_values t)(n \<mapsto> u')\<rparr>)"
    by blast
  have nm: "name_of (fst x) = n" by (simp add: x a name_of_def)
  have dict: "c' = VDict (filter (\<lambda>p. fst p \<notin> VStr ` set (stripped_keys app)) d)" if "c = VDict d" for d
    using p that by (simp add: pops_dict)
  show "?C x t t'"
  proof (cases "is_section_key n")
    case True
    then obtain items where u: "update_pairs c' = (items, None)"
      and t': "t' = t\<lparr>conf := (conf t)(n := fold (\<lambda>(k, v) m. m(k \<mapsto> Val v)) items (conf t n))\<rparr>"
      using r by auto
    have cn: "conf t' n = fold (\<lambda>(k, v) m. m(k \<mapsto> Val v)) items (conf t n)" by (simp add: t')
    have items: "items = filter (\<lambda>p. fst p \<notin> VStr ` set (stripped_keys app)) d" if "c = VDict d" for d
      using dict[OF that] u by simp
    have protect: "conf t' n (VStr k) = conf t n (VStr k)" if "k \<in> set (stripped_keys app)" for k
    proof -
      have "stripped_keys app \<noteq> []" using that by auto
      from pops_nondict[OF p this] obtain d where "c = VDict d" by blast
      from items[OF this] have "VStr k \<notin> fst ` set items" using that by auto
      then show ?thesis unfolding cn by (rule fold_update_other)
    qed
    have applied: "conf t' n k = Some (Val v)"
      if "c = VDict d" "distinct (map fst d)" "(k, v) \<in> set d"
         "k \<notin> VStr ` set (stripped_keys app)" for d k v
    proof -
      have i: "items = filter (\<lambda>p. fst p \<notin> VStr ` set (stripped_keys app)) d"
        using that(1) by (rule items)
      have di: "distinct (map fst items)" unfolding i using that(2) by (rule distinct_map_filter)
      have m: "(k, v) \<in> set items" unfolding i using that(3,4) by simp
      show ?thesis unfolding cn using di m by (rule fold_update_in)
    qed
    have frame: "(conf t' m, lazy_values t' m) = (conf t m, lazy_values t m)" if "m \<noteq> n" for m
      using that by (simp add: t')
    show ?thesis
      unfolding nm using protect applied frame True by (simp add: x)
  next
    case False
    then obtain u' where
      lu: "lazy_update (case lazy_values t n of
                          Some u \<Rightarrow> u
                        | None \<Rightarrow> (case c' of VDict d \<Rightarrow> UDict [] | _ \<Rightarrow> USet {})) c' = (u', None)"
      and t': "t' = t\<lparr>lazy_values := (lazy_values t)(n \<mapsto> u')\<rparr>"
      using r by auto
    have protect: "conf t' n (VStr k) = conf t n (VStr k)" for k by (simp add: t')
    have applied: "\<exists>u. lazy_values t' n = Some (UDict u) \<and> map_of u k = Some v"
      if h1: "c = VDict d" and h2: "distinct (map fst d)" and h3: "(k, v) \<in> set d"
        and h4: "k \<notin> VStr ` set (stripped_keys app)"
        and h5: "\<forall>xs. lazy_values t n \<noteq> Some (USet xs)" for d k v
    proof -
      define items where "items = filter (\<lambda>p. fst p \<notin> VStr ` set (stripped_keys app)) d"
      have c': "c' = VDict items" using dict[OF h1] by (simp add: items_def)
      obtain d0 where u0: "(case lazy_values t n of
                          Some u \<Rightarrow> u
                        | None \<Rightarrow> (case c' of VDict d \<Rightarrow> UDict [] | _ \<Rightarrow> USet {})) = UDict d0"
      proof (cases "lazy_values t n")
        case None
        then show ?thesis using that c' by simp
      next
        case (Some u)
        then show ?thesis using that h5 by (cases u) auto
      qed
      have u': "u' = UDict (fold (\<lambda>(k, v) d'. dict_set k v d') items d0)"
        using lu[unfolded u0] c' by (simp add: lazy_update_def)
      have di: "distinct (map fst items)"
        unfolding items_def using h2 by (rule distinct_map_filter)
      have m: "(k, v) \<in> set items" unfolding items_def using h3 h4 by simp
      have "map_of (fold (\<lambda>(k, v) d'. dict_set k v d') items d0) k = Some v"
        unfolding map_of_fold_dict_set using di m by (rule fold_update_in[where g = "\<lambda>v. v"])
      then show ?thesis by (simp add: t' u')
    qed
    have frame: "(conf t' m, lazy_values t' m) = (conf t m, lazy_values t m)" if "m \<noteq> n" for m
      using that by (simp add: t')
    show ?thesis
      unfolding nm using protect applied frame False by (simp add: x)
  qed
qed

lemma seeded_secrets_run:
  assumes "seeded_secrets w s = (s1, None)"
  shows "\<exists>cookie keys. secrets w ''hub.config.JupyterHub.cookie_secret'' = Some cookie
           \<and> secrets w ''hub.config.CryptKeeper.keys'' = Some keys
           \<and> s1 = s\<lparr>conf := ((conf s)
                   (''JupyterHub'' := (conf s ''JupyterHub'')(VStr ''cookie_secret'' \<mapsto> Val (VStr cookie))))
                   (''CryptKeeper'' := (conf s ''CryptKeeper'')
                      (VStr ''keys'' \<mapsto> Val (VList (map VStr (split_on CHR '';'' keys)))))\<rparr>"
  using assms
  by (auto simp: seeded_secrets_def get_secret_value_def eval_def setattr_def
           split: option.splits)

lemma not_secret_entry:
  assumes "(app, k) \<notin> secret_entries"
  shows "k \<notin> VStr ` set (stripped_keys (VStr app))"
  using assms by (auto simp: secret_entries_def stripped_keys_def split: if_splits)

text \<open>
  C10. When the secrets are loaded and the \<open>hub.config\<close> loop completes on a tree of
  mappings (keys pairwise different, as in any mapping): the cookie secret and the
  CryptKeeper keys are the values of the secrets-fetch function, the keys being the
  secret split at semicolons; \<open>JupyterHub.proxy_auth_token\<close>,
  \<open>JupyterHub.services\<close> and \<open>ConfigurableHTTPProxy.auth_token\<close> are as they were;
  and every entry of \<open>hub.config\<close> other than \<open>JupyterHub.proxy_auth_token\<close>,
  \<open>JupyterHub.cookie_secret\<close>, \<open>JupyterHub.services\<close>,
  \<open>ConfigurableHTTPProxy.auth_token\<close> and \<open>CryptKeeper.keys\<close> is applied with its
  value: it is the value of its attribute when the name is a category name, and it is
  in the mapping that the lazy value of the name has collected otherwise (unless that
  lazy value was a set before).
\<close>

theorem hub_config_keeps_secrets:
  assumes "seq [seeded_secrets w, hub_config cfg] s = (s', None)"
    and "get_config cfg ''hub.config'' (VDict []) = VDict apps"
    and "distinct (map fst apps)"
    and "\<forall>(app, c) \<in> set apps. \<forall>d. c = VDict d \<longrightarrow> distinct (map fst d)"
  shows "(\<exists>cookie keys.
            secrets w ''hub.config.JupyterHub.cookie_secret'' = Some cookie
            \<and> secrets w ''hub.config.CryptKeeper.keys'' = Some keys
            \<and> getattr s' ''JupyterHub'' ''cookie_secret'' = Some (Val (VStr cookie))
            \<and> getattr s' ''CryptKeeper'' ''keys''
                = Some (Val (VList (map VStr (split_on CHR '';'' keys)))))
         \<and> getattr s' ''JupyterHub'' ''proxy_auth_token'' = getattr s ''JupyterHub'' ''proxy_auth_token''
         \<and> getattr s' ''JupyterHub'' ''services'' = getattr s ''JupyterHub'' ''services''
         \<and> getattr s' ''ConfigurableHTTPProxy'' ''auth_token''
             = getattr s ''ConfigurableHTTPProxy'' ''auth_token''
         \<and> (\<forall>app d k v. (VStr app, VDict d) \<in> set apps \<and> (k, v) \<in> set d
                 \<and> (app, k) \<notin>
                     {(''JupyterHub'', VStr ''proxy_auth_token''),
                      (''JupyterHub'', VStr ''cookie_secret''),
                      (''JupyterHub'', VStr ''services''),
                      (''ConfigurableHTTPProxy'', VStr ''auth_token''),
                      (''CryptKeeper'', VStr ''keys'')}
               \<longrightarrow> (if is_section_key app
                    then conf s' app k = Some (Val v)
                    else (\<forall>xs. lazy_values s app \<noteq> Some (USet xs))
                         \<longrightarrow> (\<exists>u. lazy_values s' app = Some (UDict u) \<and> map_of u k = Some v)))"
proof -
  obtain s1 r1 where q1: "seeded_secrets w s = (s1, r1)" by (cases "seeded_secrets w s")
  have r1: "r1 = None" using assms(1) q1 by (cases r1) simp_all
  have q2: "hub_config cfg s1 = (s', None)"
    using assms(1) q1 r1 by (simp split: prod.splits option.splits)
  have loop: "seq (map hub_config_app apps) s1 = (s', None)"
    using q2 assms(2) by (simp add: hub_config_def eval_def)
  from seeded_secrets_run[OF q1[unfolded r1]] obtain cookie keys where
    c1: "secrets w ''hub.config.JupyterHub.cookie_secret'' = Some cookie"
    and c2: "secrets w ''hub.config.CryptKeeper.keys'' = Some keys"
    and s1: "s1 = s\<lparr>conf := ((conf s)
                   (''JupyterHub'' := (conf s ''JupyterHub'')(VStr ''cookie_secret'' \<mapsto> Val (VStr cookie))))
                   (''CryptKeeper'' := (conf s ''CryptKeeper'')
                      (VStr ''keys'' \<mapsto> Val (VList (map VStr (split_on CHR '';'' keys)))))\<rparr>"
    by blast
  have lz: "lazy_values s1 = lazy_values s" by (simp add: s1)
  have strs: "\<forall>x \<in> set apps. \<exists>n. fst x = VStr n"
    using loop by (rule hub_config_apps_strings)
  have "inj_on name_of (set (map fst apps))"
  proof (rule inj_onI)
    fix a b
    assume a: "a \<in> set (map fst apps)" and b: "b \<in> set (map fst apps)"
      and e: "name_of a = name_of b"
    from a strs obtain n where n: "a = VStr n" by auto
    from b strs obtain m where m: "b = VStr m" by auto
    show "a = b" using e unfolding n m by (simp add: name_of_def)
  qed
  then have dk: "distinct (map (\<lambda>x. name_of (fst x)) apps)"
    using assms(3) by (simp add: distinct_map comp_def inj_on_def)
  note L = seq_map_local[where f = hub_config_app and key = "\<lambda>x. name_of (fst x)"
      and view = "\<lambda>t m. (conf t m, lazy_values t m)"
      and P = "\<lambda>x v v'.
         (\<forall>k \<in> set (stripped_keys (fst x)). fst v' (VStr k) = fst v (VStr k))
         \<and> (\<forall>d k va. snd x = VDict d \<and> distinct (map fst d) \<and> (k, va) \<in> set d
                  \<and> k \<notin> VStr ` set (stripped_keys (fst x))
               \<longrightarrow> (if is_section_key (name_of (fst x))
                    then fst v' k = Some (Val va)
                    else (\<forall>xs. snd v \<noteq> Some (USet xs))
                         \<longrightarrow> (\<exists>u. snd v' = Some (UDict u) \<and> map_of u k = Some va)))",
      OF hub_config_app_step dk loop]
  have here: "(\<forall>k \<in> set (stripped_keys (VStr n)). conf s' n (VStr k) = conf s1 n (VStr k))
          \<and> (\<forall>d k v. c = VDict d \<and> distinct (map fst d) \<and> (k, v) \<in> set d
                  \<and> k \<notin> VStr ` set (stripped_keys (VStr n))
               \<longrightarrow> (if is_section_key n
                    then conf s' n k = Some (Val v)
                    else (\<forall>xs. lazy_values s1 n \<noteq> Some (USet xs))
                         \<longrightarrow> (\<exists>u. lazy_values s' n = Some (UDict u) \<and> map_of u k = Some v)))"
    if "(VStr n, c) \<in> set apps" for n c
    using L[THEN conjunct1, rule_format, OF that]
    by (simp only: name_of_def fst_conv snd_conv pyval.case cong: if_cong)
  have frame: "conf s' m = conf s1 m" if "VStr m \<notin> fst ` set apps" for m
  proof -
    have "m \<notin> (\<lambda>x. name_of (fst x)) ` set apps"
    proof
      assume "m \<in> (\<lambda>x. name_of (fst x)) ` set apps"
      then obtain x where x: "x \<in> set apps" "m = name_of (fst x)" by blast
      from strs x(1) obtain n where "fst x = VStr n" by blast
      then have "fst x = VStr m" using x(2) by (simp add: name_of_def)
      then show False using that x(1) by (metis image_eqI)
    qed
    then show ?thesis using L[THEN conjunct2, rule_format, of m] by simp
  qed
  have p: "conf s' sec (VStr k) = conf s1 sec (VStr k)"
    if k: "k \<in> set (stripped_keys (VStr sec))" for sec k
  proof (cases "VStr sec \<in> fst ` set apps")
    case False
    then show ?thesis by (simp add: frame)
  next
    case True
    then obtain c where "(VStr sec, c) \<in> set apps" by auto
    from here[OF this] k show ?thesis by blast
  qed
  have g1: "getattr s' ''JupyterHub'' ''cookie_secret'' = Some (Val (VStr cookie))"
    using p[of "''cookie_secret''" "''JupyterHub''"]
    by (simp add: getattr_def stripped_keys_def s1)
  have g2: "getattr s' ''CryptKeeper'' ''keys'' = Some (Val (VList (map VStr (split_on CHR '';'' keys))))"
    using p[of "''keys''" "''CryptKeeper''"]
    by (simp add: getattr_def stripped_keys_def s1)
  have g3: "getattr s' ''JupyterHub'' ''proxy_auth_token'' = getattr s ''JupyterHub'' ''proxy_auth_token''"
    using p[of "''proxy_auth_token''" "''JupyterHub''"]
    by (simp add: getattr_def stripped_keys_def s1)
  have g4: "getattr s' ''JupyterHub'' ''services'' = getattr s ''JupyterHub'' ''services''"
    using p[of "''services''" "''JupyterHub''"]
    by (simp add: getattr_def stripped_keys_def s1)
  have g5: "getattr s' ''ConfigurableHTTPProxy'' ''auth_token''
             = getattr s ''ConfigurableHTTPProxy'' ''auth_token''"
    using p[of "''auth_token''" "''ConfigurableHTTPProxy''"]
    by (simp add: getattr_def stripped_keys_def s1)
  have g6: "\<forall>app d k v. (VStr app, VDict d) \<in> set apps \<and> (k, v) \<in> set d
                 \<and> (app, k) \<notin>
                     {(''JupyterHub'', VStr ''proxy_auth_token''),
                      (''JupyterHub'', VStr ''cookie_secret''),
                      (''JupyterHub'', VStr ''services''),
                      (''ConfigurableHTTPProxy'', VStr ''auth_token''),
                      (''CryptKeeper'', VStr ''keys'')}
               \<longrightarrow> (if is_section_key app
                    then conf s' app k = Some (Val v)
                    else (\<forall>xs. lazy_values s app \<noteq> Some (USet xs))
                         \<longrightarrow> (\<exists>u. lazy_values s' app = Some (UDict u) \<and> map_of u k = Some v))"
  proof (intro allI impI, elim conjE)
    fix app d k v
    assume m: "(VStr app, VDict d) \<in> set apps" and kv: "(k, v) \<in> set d"
      and ns: "(app, k) \<notin>
                     {(''JupyterHub'', VStr ''proxy_auth_token''),
                      (''JupyterHub'', VStr ''cookie_secret''),
                      (''JupyterHub'', VStr ''services''),
                      (''ConfigurableHTTPProxy'', VStr ''auth_token''),
                      (''CryptKeeper'', VStr ''keys'')}"
    have dd: "distinct (map fst d)" using assms(4) m by blast
    have nk: "k \<notin> VStr ` set (stripped_keys (VStr app))"
      using ns by (intro not_secret_entry) (simp add: secret_entries_def)
    from here[OF m, THEN conjunct2, rule_format, of d k v] dd kv nk
    show "if is_section_key app
                    then conf s' app k = Some (Val v)
                    else (\<forall>xs. lazy_values s app \<noteq> Some (USet xs))
                         \<longrightarrow> (\<exists>u. lazy_values s' app = Some (UDict u) \<and> map_of u k = Some v)"
      unfolding lz by simp
  qed
  show ?thesis using c1 c2 g1 g2 g3 g4 g5 g6 by blast
qed

theorem hub_config_keeps_secrets_witness:
  "snd (seq [seeded_secrets (sample_world\<lparr>secrets := sample_secrets\<rparr>),
            hub_config sample_hub_config] (init_state sample_env)) = None
   \<and> getattr (fst (seq [seeded_secrets (sample_world\<lparr>secrets := sample_secrets\<rparr>),
                       hub_config sample_hub_config] (init_state sample_env)))
        ''JupyterHub'' ''cookie_secret'' = Some (Val (VStr ''c0ffee''))
   \<and> getattr (fst (seq [seeded_secrets (sample_world\<lparr>secrets := sample_secrets\<rparr>),
                       hub_config sample_hub_config] (init_state sample_env)))
        ''CryptKeeper'' ''keys'' = Some (Val (VList [VStr ''k1'', VStr ''k2'']))
   \<and> getattr (fst (seq [seeded_secrets (sample_world\<lparr>secrets := sample_secrets\<rparr>),
                       hub_config sample_hub_config] (init_state sample_env)))
        ''JupyterHub'' ''admin_access'' = Some (Val (VBool True))
   \<and> getattr (fst (seq [seeded_secrets (sample_world\<lparr>secrets := sample_secrets\<rparr>),
                       hub_config sample_hub_config] (init_state sample_env)))
        ''CryptKeeper'' ''n_threads'' = Some (Val (VInt 4))
   \<and> lazy_values (fst (seq [seeded_secrets (sample_world\<lparr>secrets := sample_secrets\<rparr>),
                       hub_config sample_hub_config] (init_state sample_env)))
        ''myapp'' = Some (UDict [(VStr ''level'', VInt 3)])"
proof -
  define w where "w = sample_world\<lparr>secrets := sample_secrets\<rparr>"
  define apps where "apps =
    [(VStr ''JupyterHub'', VDict [(VStr ''cookie_secret'', VStr ''overridden''),
                                  (VStr ''admin_access'', VBool True)]),
     (VStr ''CryptKeeper'', VDict [(VStr ''keys'', VList [VStr ''other'']),
                                   (VStr ''n_threads'', VInt 4)]),
     (VStr ''myapp'', VDict [(VStr ''level'', VInt 3)])]"
  obtain s' r where run: "seq [seeded_secrets w, hub_config sample_hub_config] (init_state sample_env) = (s', r)"
    by (cases "seq [seeded_secrets w, hub_config sample_hub_config] (init_state sample_env)")
  have r: "r = None" and lv: "lazy_values s' ''myapp'' = Some (UDict [(VStr ''level'', VInt 3)])"
    using run
    by (auto simp: w_def sample_world_def sample_secrets_def sample_hub_config_def
          seeded_secrets_def hub_config_def hub_config_app_def get_secret_value_def
          stripped_keys_def top_update_def top_of_def is_section_key_def changed_by_upper_def
          is_lower_def lazy_value_update_def lazy_update_def init_state_def
          tree_defs stmt_defs Let_def
          split: prod.splits option.splits)
  have a: "get_config sample_hub_config ''hub.config'' (VDict []) = VDict apps"
    by (simp add: sample_hub_config_def apps_def tree_defs)
  have d: "distinct (map fst apps)" by (simp add: apps_def)
  have dd: "\<forall>(app, c) \<in> set apps. \<forall>d. c = VDict d \<longrightarrow> distinct (map fst d)"
    by (auto simp: apps_def)
  have sc: "secrets w ''hub.config.JupyterHub.cookie_secret'' = Some ''c0ffee''"
    and sk: "secrets w ''hub.config.CryptKeeper.keys'' = Some ''k1;k2''"
    by (simp_all add: w_def sample_secrets_def)
  note T = hub_config_keeps_secrets[OF run[unfolded r] a d dd]
  from T sc sk
  have g1: "getattr s' ''JupyterHub'' ''cookie_secret'' = Some (Val (VStr ''c0ffee''))"
    and g2: "getattr s' ''CryptKeeper'' ''keys''
              = Some (Val (VList (map VStr (split_on CHR '';'' ''k1;k2''))))"
    by auto
  note g3 = T[THEN conjunct2, THEN conjunct2, THEN conjunct2, THEN conjunct2, rule_format]
  have m1: "(VStr ''JupyterHub'', VDict [(VStr ''cookie_secret'', VStr ''overridden''),
                                       (VStr ''admin_access'', VBool True)]) \<in> set apps"
    and m2: "(VStr ''CryptKeeper'', VDict [(VStr ''keys'', VList [VStr ''other'']),
                                   (VStr ''n_threads'', VInt 4)]) \<in> set apps"
    by (simp_all add: apps_def)
  have k1: "is_section_key ''JupyterHub''" and k2: "is_section_key ''CryptKeeper''"
    by (simp_all add: is_section_key_def changed_by_upper_def is_lower_def)
  have g4: "getattr s' ''JupyterHub'' ''admin_access'' = Some (Val (VBool True))"
    using g3[of "''JupyterHub''" "[(VStr ''cookie_secret'', VStr ''overridden''),
                                       (VStr ''admin_access'', VBool True)]"
                "VStr ''admin_access''" "VBool True"] m1 k1
    by (simp add: getattr_def)
  have g5: "getattr s' ''CryptKeeper'' ''n_threads'' = Some (Val (VInt 4))"
    using g3[of "''CryptKeeper''" "[(VStr ''keys'', VList [VStr ''other'']),
                                   (VStr ''n_threads'', VInt 4)]"
                "VStr ''n_threads''" "VInt 4"] m2 k2
    by (simp add: getattr_def)
  show ?thesis
    using run r g1 g2 g4 g5 lv unfolding w_def by simp
qed

subsection \<open>The order of the extra configuration\<close>

lemma split_on_nonempty: "split_on sep s \<noteq> []"
  by (induction s) (auto split: list.splits)

lemma split_on_none: "sep \<notin> set s \<Longrightarrow> split_on sep s = [s]"
  by (induction s) auto

lemma split_on_append:
  "split_on sep (xs @ sep # ys) = split_on sep xs @ split_on sep ys"
proof (induction xs)
  case Nil
  then show ?case by simp
next
  case (Cons x xs)
  obtain w ws where s: "split_on sep xs = w # ws"
    using split_on_nonempty[of sep xs] by (cases "split_on sep xs") auto
  show ?case using Cons.IH s by simp
qed

lemma after_last_append:
  "sep \<notin> set n \<Longrightarrow> after_last sep (xs @ sep # n) = n"
  by (simp add: after_last_def split_on_append split_on_none)

lemma prefix_le_cancel: "(pre @ a \<le> pre @ b) = (a \<le> (b :: string))"
  by (induction pre) simp_all

lemma run_fragments_Cons:
  "run_fragments w (x # xs) s =
     (case run_fragments w [x] s of
        (s', None) \<Rightarrow> run_fragments w xs s'
      | (s', Some e) \<Rightarrow> (s', Some e))"
  by (cases x) (auto split: prod.splits option.splits)

lemma seq_map_fragments:
  assumes step: "\<And>x t t'. x \<in> set xs \<Longrightarrow> f x t = (t', None)
                   \<Longrightarrow> run_fragments w [frag x] t = (t', None)"
    and run: "seq (map f xs) t = (t', None)"
  shows "run_fragments w (map frag xs) t = (t', None)"
  using step run
proof (induction xs arbitrary: t)
  case Nil
  then show ?case by simp
next
  case (Cons x xs)
  obtain t1 r1 where s1: "f x t = (t1, r1)" by (cases "f x t")
  have r1: "r1 = None" using Cons.prems(2) s1 by (cases r1) simp_all
  have rest: "seq (map f xs) t1 = (t', None)" using Cons.prems(2) s1 r1 by simp
  have one: "run_fragments w [frag x] t = (t1, None)"
    using Cons.prems(1)[of x t t1] s1 r1 by simp
  have "run_fragments w (map frag xs) t1 = (t', None)"
    using Cons.IH[OF _ rest] Cons.prems(1) by simp
  then show ?case
    using one by (simp add: run_fragments_Cons[of w "frag x" "map frag xs"])
qed

lemma seq_map_all:
  assumes step: "\<And>x t t'. f x t = (t', None) \<Longrightarrow> Q x"
    and run: "seq (map f xs) t = (t', None)"
  shows "\<forall>x \<in> set xs. Q x"
  using run
proof (induction xs arbitrary: t)
  case Nil
  then show ?case by simp
next
  case (Cons x xs)
  obtain t1 r1 where s1: "f x t = (t1, r1)" by (cases "f x t")
  have r1: "r1 = None" using Cons.prems s1 by (cases r1) simp_all
  have rest: "seq (map f xs) t1 = (t', None)" using Cons.prems s1 r1 by simp
  have "Q x" using step s1 r1 by blast
  then show ?case using Cons.IH[OF rest] by simp
qed

lemma load_config_file_read:
  assumes "load_config_file w p t = (t', None)"
  shows "\<exists>file_content. read_file w p = Inr file_content"
  using assms
  by (cases "read_file w p") (auto simp: load_config_file_def Let_def py_print_def eval_def)

lemma load_config_file_fragment:
  assumes "load_config_file w p t = (t', None)"
  shows "run_fragments w [file_fragment w p] t = (t', None)"
proof -
  from load_config_file_read[OF assms] obtain file_content where
    r: "read_file w p = Inr file_content" by blast
  show ?thesis
    using assms r
    by (auto simp: load_config_file_def Let_def py_print_def eval_def file_fragment_def
          split: prod.splits option.splits)
qed

lemma load_extra_config_source:
  assumes "load_extra_config w item t = (t', None)"
  shows "\<exists>src. snd item = VStr src"
proof -
  obtain key config_py where i: "item = (key, config_py)" by (cases item)
  from assms i show ?thesis
    by (cases config_py) (auto simp: load_extra_config_def py_print_def raise_def)
qed

lemma load_extra_config_fragment:
  assumes "load_extra_config w item t = (t', None)"
  shows "run_fragments w [entry_fragment item] t = (t', None)"
proof -
  obtain key config_py where i: "item = (key, config_py)" by (cases item)
  from load_extra_config_source[OF assms] i obtain src where c: "config_py = VStr src" by auto
  show ?thesis
    using assms i c
    by (auto simp: load_extra_config_def py_print_def entry_fragment_def
          split: prod.splits option.splits)
qed

lemma sorted_items_sorted:
  assumes "sorted_items d = Inr items"
  shows "mset items = mset d
         \<and> ((\<forall>p \<in> set d. str_key (fst p) \<noteq> None)
              \<longrightarrow> sorted (map (\<lambda>p. the (str_key (fst p))) items))
         \<and> ((\<forall>p \<in> set d. as_int (fst p) \<noteq> None)
              \<longrightarrow> sorted (map (\<lambda>p. the (as_int (fst p))) items))"
proof (cases "length d \<le> 1")
  case True
  then have i: "items = d" using assms by (simp add: sorted_items_def)
  have "sorted (map (\<lambda>p. the (str_key (fst p))) d)"
    and "sorted (map (\<lambda>p. the (as_int (fst p))) d)"
    using True by (cases d; auto simp: le_Suc_eq)+
  then show ?thesis using i by simp
next
  case False
  then obtain p q rest where d: "d = p # q # rest"
    by (cases d; cases "tl d") auto
  show ?thesis
  proof (cases "\<forall>p \<in> set d. str_key (fst p) \<noteq> None")
    case True
    then have i: "items = sort_key (\<lambda>p. the (str_key (fst p))) d"
      using assms False by (simp add: sorted_items_def)
    have "str_key (fst p) \<noteq> None" using True d by simp
    then have "as_int (fst p) = None" by (cases "fst p") simp_all
    then have ni: "\<not> (\<forall>p \<in> set d. as_int (fst p) \<noteq> None)" using d by auto
    have a: "mset items = mset d" and b: "sorted (map (\<lambda>p. the (str_key (fst p))) items)"
      by (simp_all add: i)
    show ?thesis using a b ni by blast
  next
    case n: False
    then have i: "items = sort_key (\<lambda>p. the (as_int (fst p))) d"
      using assms False by (auto simp: sorted_items_def split: if_splits)
    have a: "mset items = mset d" and b: "sorted (map (\<lambda>p. the (as_int (fst p))) items)"
      by (simp_all add: i)
    show ?thesis using a b n by blast
  qed
qed

lemma sorted_basenames:
  assumes "sorted files"
    and "\<forall>p \<in> set files. \<exists>n. p = dir @ CHR ''/'' # n \<and> CHR ''/'' \<notin> set n"
  shows "sorted (map (after_last CHR ''/'') files)"
proof -
  have "sorted_wrt (\<lambda>p q. after_last CHR ''/'' p \<le> after_last CHR ''/'' q) files"
  proof (rule sorted_wrt_mono_rel[OF _ assms(1)])
    fix p q
    assume "p \<in> set files" "q \<in> set files" "p \<le> q"
    then obtain n m where p: "p = dir @ CHR ''/'' # n" "CHR ''/'' \<notin> set n"
      and q: "q = dir @ CHR ''/'' # m" "CHR ''/'' \<notin> set m"
      using assms(2) by blast
    have "(dir @ [CHR ''/'']) @ n \<le> (dir @ [CHR ''/'']) @ m"
      using \<open>p \<le> q\<close> p(1) q(1) by simp
    then have "n \<le> m" by (simp only: prefix_le_cancel)
    then show "after_last CHR ''/'' p \<le> after_last CHR ''/'' q"
      using p q by (simp add: after_last_append)
  qed
  then show ?thesis by (simp add: sorted_map)
qed

text \<open>
  C7. When the loading of the extra configuration completes, the state it leaves is
  the one that comes from running, one after the other: the \<open>.py\<close> files of the
  configuration directory in sorted order of the paths (which is the sorted order of
  the file names, the files being in that directory), each read without error and run
  under its file name after its progress line was printed; and then the entries of
  \<open>hub.extraConfig\<close>, as the tree holds them once the files have run, in sorted order
  of the keys (as strings, or as integers when the keys are integers), each a string
  and run after its progress line was printed. Every fragment acts on the state that
  the fragments before it have left.
\<close>

theorem extra_config_order:
  assumes "seq [config_d w, extra_config w] s = (s', None)"
  shows "\<exists>files s1 d items.
           (if isdir w config_dir
              then mset files = mset (glob w (config_dir @ ''/*.py''))
              else files = [])
         \<and> sorted files
         \<and> ((\<forall>p \<in> set (glob w (config_dir @ ''/*.py'')).
                 \<exists>n. p = config_dir @ CHR ''/'' # n \<and> CHR ''/'' \<notin> set n)
              \<longrightarrow> sorted (map (after_last CHR ''/'') files))
         \<and> (\<forall>p \<in> set files. \<exists>file_content. read_file w p = Inr file_content)
         \<and> run_fragments w (map (file_fragment w) files) s = (s1, None)
         \<and> py_items (get_config (tree s1) ''hub.extraConfig'' (VDict [])) = Inr d
         \<and> mset items = mset d
         \<and> ((\<forall>p \<in> set d. str_key (fst p) \<noteq> None)
              \<longrightarrow> sorted (map (\<lambda>p. the (str_key (fst p))) items))
         \<and> ((\<forall>p \<in> set d. as_int (fst p) \<noteq> None)
              \<longrightarrow> sorted (map (\<lambda>p. the (as_int (fst p))) items))
         \<and> (\<forall>item \<in> set items. \<exists>src. snd item = VStr src)
         \<and> run_fragments w (map entry_fragment items) s1 = (s', None)"
proof -
  obtain s1 r1 where q1: "config_d w s = (s1, r1)" by (cases "config_d w s")
  have r1: "r1 = None" using assms q1 by (cases r1) simp_all
  have q2: "extra_config w s1 = (s', None)"
    using assms q1 r1 by (simp split: prod.splits option.splits)
  define files where "files = (if isdir w config_dir
                               then sort (glob w (config_dir @ ''/*.py'')) else [])"
  have f1: "seq (map (load_config_file w) files) s = (s1, None)"
    using q1 r1 by (simp add: config_d_def files_def skip_def split: if_splits)
  have t1: "run_fragments w (map (file_fragment w) files) s = (s1, None)"
    using load_config_file_fragment f1 by (rule seq_map_fragments)
  have rd: "\<forall>p \<in> set files. \<exists>file_content. read_file w p = Inr file_content"
    using load_config_file_read f1 by (rule seq_map_all)
  have fm: "if isdir w config_dir
            then mset files = mset (glob w (config_dir @ ''/*.py''))
            else files = []"
    by (simp add: files_def)
  have fs: "sorted files" by (simp add: files_def)
  have fb: "sorted (map (after_last CHR ''/'') files)"
    if "\<forall>p \<in> set (glob w (config_dir @ ''/*.py'')).
          \<exists>n. p = config_dir @ CHR ''/'' # n \<and> CHR ''/'' \<notin> set n"
  proof (rule sorted_basenames[OF fs])
    show "\<forall>p \<in> set files. \<exists>n. p = config_dir @ CHR ''/'' # n \<and> CHR ''/'' \<notin> set n"
      using that by (simp add: files_def)
  qed
  from q2 obtain d where d: "py_items (get_config (tree s1) ''hub.extraConfig'' (VDict [])) = Inr d"
    by (cases "py_items (get_config (tree s1) ''hub.extraConfig'' (VDict []))")
       (auto simp: extra_config_def eval_def)
  from q2 d obtain items where i: "sorted_items d = Inr items"
    by (cases "sorted_items d") (auto simp: extra_config_def eval_def)
  have f2: "seq (map (load_extra_config w) items) s1 = (s', None)"
    using q2 d i by (simp add: extra_config_def eval_def)
  have t2: "run_fragments w (map entry_fragment items) s1 = (s', None)"
    using load_extra_config_fragment f2 by (rule seq_map_fragments)
  have sr: "\<forall>item \<in> set items. \<exists>src. snd item = VStr src"
    using load_extra_config_source f2 by (rule seq_map_all)
  note so = sorted_items_sorted[OF i]
  have so1: "mset items = mset d" by (rule so[THEN conjunct1])
  have so2: "(\<forall>p \<in> set d. str_key (fst p) \<noteq> None)
              \<longrightarrow> sorted (map (\<lambda>p. the (str_key (fst p))) items)"
    by (rule so[THEN conjunct2, THEN conjunct1])
  have so3: "(\<forall>p \<in> set d. as_int (fst p) \<noteq> None)
              \<longrightarrow> sorted (map (\<lambda>p. the (as_int (fst p))) items)"
    by (rule so[THEN conjunct2, THEN conjunct2])
  have fb': "(\<forall>p \<in> set (glob w (config_dir @ ''/*.py'')).
                 \<exists>n. p = config_dir @ CHR ''/'' # n \<and> CHR ''/'' \<notin> set n)
              \<longrightarrow> sorted (map (after_last CHR ''/'') files)"
    using fb by blast
  show ?thesis
    apply (rule exI[of _ files])
    apply (rule exI[of _ s1])
    apply (rule exI[of _ d])
    apply (rule exI[of _ items])
    apply (intro conjI fm fs fb' rd t1 d so1 so2 so3 sr t2)
    done
qed

theorem extra_config_order_witness:
  "snd (seq [config_d sample_fragments_world, extra_config sample_fragments_world]
          (start_state sample_env sample_extra_config)) = None
   \<and> trace (fst (seq [config_d sample_fragments_world, extra_config sample_fragments_world]
                (start_state sample_env sample_extra_config)))
     = [''Loading '' @ config_dir @ '' config: a.py'',
        ''Loading '' @ config_dir @ '' config: b.py'',
        ''Loading extra config: a-first'',
        ''Loading extra config: z-last'']
   \<and> attr_items (fst (seq [config_d sample_fragments_world, extra_config sample_fragments_world]
                (start_state sample_env sample_extra_config))) ''Sample'' ''loaded''
     = Some [VStr ''x = 1'', VStr ''y = 2'', VStr ''a = 1'', VStr ''z = 26'']
   \<and> run_fragments sample_fragments_world
         [(''Loading '' @ config_dir @ '' config: a.py'', ''a.py'', ''x = 1''),
          (''Loading '' @ config_dir @ '' config: b.py'', ''b.py'', ''y = 2''),
          (''Loading extra config: a-first'', ''<string>'', ''a = 1''),
          (''Loading extra config: z-last'', ''<string>'', ''z = 26'')]
         (start_state sample_env sample_extra_config)
     = seq [config_d sample_fragments_world, extra_config sample_fragments_world]
          (start_state sample_env sample_extra_config)"
proof -
  define w where "w = sample_fragments_world"
  define s where "s = start_state sample_env sample_extra_config"
  define sf where "sf = s\<lparr>conf := (conf s)(''Sample'' := (conf s ''Sample'')
                           (VStr ''loaded'' \<mapsto> Lazy [VStr ''x = 1'', VStr ''y = 2'',
                                                     VStr ''a = 1'', VStr ''z = 26''])),
                        trace := [''Loading '' @ config_dir @ '' config: a.py'',
                                  ''Loading '' @ config_dir @ '' config: b.py'',
                                  ''Loading extra config: a-first'',
                                  ''Loading extra config: z-last'']\<rparr>"
  obtain s' r where run: "seq [config_d w, extra_config w] s = (s', r)"
    by (cases "seq [config_d w, extra_config w] s")
  have ev: "seq [config_d w, extra_config w] s = (sf, None)"
    by (simp add: w_def s_def sf_def sample_fragments_world_def sample_world_def
          sample_extra_config_def start_state_def init_state_def config_d_def
          extra_config_def load_config_file_def load_extra_config_def sorted_items_def
          config_dir_def after_last_def tree_defs stmt_defs py_str_def Let_def)
  have r: "r = None" and s': "s' = sf" using run ev by simp_all
  from extra_config_order[OF run[unfolded r]] obtain files s1 d items where
    m: "if isdir w config_dir
        then mset files = mset (glob w (config_dir @ ''/*.py'')) else files = []"
    and so: "sorted files"
    and t1: "run_fragments w (map (file_fragment w) files) s = (s1, None)"
    and d: "py_items (get_config (tree s1) ''hub.extraConfig'' (VDict [])) = Inr d"
    and mi: "mset items = mset d"
    and t2: "run_fragments w (map entry_fragment items) s1 = (s', None)"
    by blast
  have rf: "run_fragments w
         [(''Loading '' @ config_dir @ '' config: a.py'', ''a.py'', ''x = 1''),
          (''Loading '' @ config_dir @ '' config: b.py'', ''b.py'', ''y = 2''),
          (''Loading extra config: a-first'', ''<string>'', ''a = 1''),
          (''Loading extra config: z-last'', ''<string>'', ''z = 26'')] s = (sf, None)"
    by (simp add: w_def s_def sf_def sample_fragments_world_def sample_world_def
          sample_extra_config_def start_state_def init_state_def config_dir_def stmt_defs)
  have tr: "trace s' = [''Loading '' @ config_dir @ '' config: a.py'',
                        ''Loading '' @ config_dir @ '' config: b.py'',
                        ''Loading extra config: a-first'',
                        ''Loading extra config: z-last'']"
    using t2 by (simp add: s' sf_def)
  have at: "attr_items s' ''Sample'' ''loaded''
              = Some [VStr ''x = 1'', VStr ''y = 2'', VStr ''a = 1'', VStr ''z = 26'']"
    using t1 by (simp add: s' sf_def attr_items_def getattr_def)
  show ?thesis
    using run r tr at rf ev unfolding w_def s_def by simp
qed

subsection \<open>Further facts about the script\<close>

text \<open>The enumerated pair lists of the script name each attribute once.\<close>

lemma trait_lists_distinct:
  "distinct (map fst hub_traits)"
  "distinct (map fst kubespawner_traits)"
  "distinct (map fst (common_oauth_traits @ [(''hosted_domain'', None), (''login_service'', None)]))"
  "distinct (map fst (common_oauth_traits @ [(''github_organization_whitelist'', Some ''orgWhitelist'')]))"
  "distinct (map fst ldap_traits)"
  by (simp_all add: hub_traits_def kubespawner_traits_def common_oauth_traits_def ldap_traits_def)

text \<open>
  A single call of \<open>set_config_if_not_none\<close> is the loop over one pair that has its key.
\<close>

lemma set_config_if_not_none_single:
  "set_config_if_not_none cfg sec a key s = set_traits cfg sec [] [(a, Some key)] s"
  by (simp add: set_traits_def source_key_def set_config_if_not_none_def Let_def
        setattr_def skip_def)

text \<open>
  The cilogon, gitlab, mediawiki and globus branches set the authenticator class and
  then stop at their first pair, which has no key: they raise a TypeError.
\<close>

lemma keyless_branches_raise:
  assumes "get_config cfg ''auth.type'' VNone
             \<in> VStr ` {''cilogon'', ''gitlab'', ''mediawiki'', ''globus''}"
  shows "snd (authenticator w cfg s) = Some TypeError"
  using assms
  by (auto simp: authenticator_def Let_def set_traits_keyed_def common_oauth_traits_def
        setattr_def raise_def)

text \<open>
  An entry of \<open>hub.config\<close> under a name that is not a category name, with a list of
  pairs in place of a mapping: the lazy value of that name becomes a set, and adding
  the first pair, a list, to the set raises a TypeError. Under a category name the
  same list is taken as pairs.
\<close>

lemma hub_config_non_mapping:
  "lazy_values s ''myapp'' = None \<Longrightarrow>
     hub_config_app (VStr ''myapp'', VList [VList [VStr ''level'', VInt 3]]) s
       = (s\<lparr>lazy_values := (lazy_values s)(''myapp'' \<mapsto> USet {})\<rparr>, Some TypeError)"
  "snd (hub_config_app (VStr ''MyApp'', VList [VList [VStr ''level'', VInt 3]]) s) = None"
  "conf (fst (hub_config_app (VStr ''MyApp'', VList [VList [VStr ''level'', VInt 3]]) s))
     ''MyApp'' (VStr ''level'') = Some (Val (VInt 3))"
  by (simp_all add: hub_config_app_def stripped_keys_def top_update_def top_of_def
        is_section_key_def changed_by_upper_def is_lower_def lazy_value_update_def
        lazy_update_def update_elements_def section_update_def pair_of_def eval_def Let_def)

text \<open>
  An update from a sequence with an element that is not a pair: the pairs before it
  are inserted, and the error gives the position and the length of the element.
\<close>

lemma update_pairs_wrong_length:
  "update_pairs (VList [VStr ''ab'', VStr ''c''])
     = ([(VStr ''a'', VStr ''b'')],
        Some (ValueError ''dictionary update sequence element #1 has length 1; 2 is required''))"
  by (simp add: pair_of_def digit_char_def)

text \<open>
  The whole script completes on a small deployment: the dummy authenticator, the
  culler enabled, the two secrets, no fragment.
\<close>

lemma script_completes:
  "snd (jupyterhub_config (sample_world\<lparr>secrets := sample_secrets\<rparr>)
          (start_state sample_env
             (VDict [(VStr ''auth'', VDict [(VStr ''type'', VStr ''dummy'')]),
                     (VStr ''cull'', VDict [(VStr ''enabled'', VBool True)]),
                     (VStr ''singleuser'', VDict [(VStr ''cloudMetadata'', VDict [])])]))) = None"
proof -
  define w where "w = sample_world\<lparr>secrets := sample_secrets\<rparr>"
  define cfg where "cfg =
    VDict [(VStr ''auth'', VDict [(VStr ''type'', VStr ''dummy'')]),
           (VStr ''cull'', VDict [(VStr ''enabled'', VBool True)]),
           (VStr ''singleuser'', VDict [(VStr ''cloudMetadata'', VDict [])])]"
  define s0 where "s0 = start_state sample_env cfg"
  have ts: "tree s0 = cfg" by (simp add: s0_def start_state_def)
  obtain s1 r1 where b: "seq (before_authenticator w cfg) s0 = (s1, r1)"
    by (cases "seq (before_authenticator w cfg) s0")
  have r1: "r1 = None"
    using b unfolding cfg_def w_def s0_def
    by (simp add: before_authenticator_defs start_state_def init_state_def sample_env_def
          sample_world_def sample_secrets_def is_lower_def upper_def py_str_def stmt_defs
          tree_defs Let_def)
  have u1: "getattr s1 ''JupyterHub'' ''base_url'' = None" and v1: "tree s1 = cfg"
    using b unfolding cfg_def w_def s0_def
    by (auto simp add: before_authenticator_defs start_state_def init_state_def sample_env_def
          sample_world_def sample_secrets_def is_lower_def upper_def py_str_def stmt_defs
          tree_defs Let_def)
  obtain s2 r2 where a: "authenticator w cfg s1 = (s2, r2)"
    by (cases "authenticator w cfg s1")
  have r2: "r2 = None" and u2: "getattr s2 ''JupyterHub'' ''base_url'' = None"
    and v2: "tree s2 = cfg"
    using a u1 v1 unfolding cfg_def
    by (auto simp: authenticator_def stmt_defs tree_defs Let_def)
  have c: "snd (seq (after_authenticator w cfg) s2) = None"
    using u2 v2 unfolding cfg_def w_def
    by (simp add: after_authenticator_def
          auth_settings_def services_init_def idle_culler_def
          hub_services_def hub_load_roles_def specified_cmd_def default_url_def
          cloud_metadata_def debug_def seeded_secrets_def hub_config_def config_d_def
          extra_config_def ldap_hooks_def get_secret_value_def sorted_items_def
          sample_world_def sample_secrets_def
          stmt_defs tree_defs Let_def eq_True_def)
  have "snd (jupyterhub_config w s0) = None"
    using b r1 a r2 c by (simp add: jupyterhub_config_def ts seq_append)
  then show ?thesis unfolding w_def cfg_def s0_def .
qed

end
